theory Spec2Isabelle
  imports Complex_Main "HOL-Library.Word"
begin

unbundle bit_operations_syntax

section \<open>APEL Scan: the firmware of \<^verbatim>\<open>src/APEL_Scan/main.c\<close>\<close>

text \<open>
  The program is one C file for the ATmega328P (avr-gcc). Its \<^verbatim>\<open>main\<close> initialises the
  display and then runs \<^verbatim>\<open>while(1)\<close>: an if/else-if chain over the three push buttons
  of port D, followed by a \<^verbatim>\<open>switch(state)\<close>.

  Conventions of the embedding.
  \<^item> The local variables of \<^verbatim>\<open>main\<close> are the record \<open>vars\<close>, passed from one loop
    iteration to the next.
  \<^item> What an iteration reads from the hardware is the record \<open>inputs\<close>: the pin register
    \<^verbatim>\<open>PIND\<close> and, per channel, the result the analog-to-digital converter delivers. The
    converter has 10 bits (the source's own comment at the conversion says so), hence
    results are \<open>10 word\<close>; \<^verbatim>\<open>read_adc\<close> widens them to \<^verbatim>\<open>uint16_t\<close>. The busy-wait of
    \<^verbatim>\<open>read_adc\<close> ends when the hardware clears the start bit; the model takes the
    conversion to complete. \<^verbatim>\<open>PIND\<close> is taken to hold one value while the if/else-if
    chain of one iteration is evaluated.
  \<^item> What an iteration does to the hardware is a list of \<open>hw_op\<close>: one entry per call of
    a driver function that touches registers (\<^verbatim>\<open>lcd_cmd\<close>, \<^verbatim>\<open>lcd_data\<close>, \<^verbatim>\<open>adc_init\<close>,
    \<^verbatim>\<open>adc_initBG\<close>, \<^verbatim>\<open>read_adc\<close>), in program order. Delays are not modelled.
  \<^item> \<^verbatim>\<open>int\<close> is the 16-bit \<^verbatim>\<open>int\<close> of avr-gcc. The variables \<^verbatim>\<open>peakVoltage\<close> and
    \<^verbatim>\<open>Vread\<close> are only assigned 0 or a conversion result, so they are plain \<open>int\<close> here;
    the one place where a value can leave the range of \<^verbatim>\<open>int\<close> is the conversion
    \<^verbatim>\<open>(int) voltage\<close> in \<^verbatim>\<open>print_volt\<close>, which C leaves undefined there. Undefined
    behaviour is the result \<open>None\<close>.
  \<^item> \<^verbatim>\<open>float\<close> is IEEE 754 single precision. \<^verbatim>\<open>print_volt\<close> computes in it: \<open>binary32\<close>
    rounds a real number to the nearest single-precision value (ties to even, subnormal
    numbers included), and \<^verbatim>\<open>print_volt\<close> applies it to its argument, which it receives
    as a \<^verbatim>\<open>float\<close>, to its subtraction and to its product. The two conversions of a
    sample to a voltage in \<^verbatim>\<open>main\<close> are taken in exact arithmetic: what the model stores
    in \<^verbatim>\<open>peak\<close> and \<^verbatim>\<open>bias\<close> is within floating-point tolerance of what the device
    holds.
\<close>

subsection \<open>Hardware operations\<close>

datatype hw_op =
    Lcd_cmd "8 word"
  | Lcd_data char
  | Adc_init
  | Adc_initBG
  | Adc_read "8 word"

record inputs =
  PIND :: "8 word"
  ADC :: "8 word \<Rightarrow> 10 word"

definition lcd_cmd :: "8 word \<Rightarrow> hw_op list" where
  "lcd_cmd cmd_out = [Lcd_cmd cmd_out]"

definition lcd_data :: "char \<Rightarrow> hw_op list" where
  "lcd_data data_out = [Lcd_data data_out]"

text \<open>\<^verbatim>\<open>lcd_str\<close> sends the characters of a C string up to its terminating NUL.\<close>

fun lcd_str :: "string \<Rightarrow> hw_op list" where
  "lcd_str [] = []"
| "lcd_str (c # str) = (if c = CHR 0x00 then [] else lcd_data c @ lcd_str str)"

definition lcd_init :: "hw_op list" where
  "lcd_init = lcd_cmd 0x38 @ lcd_cmd 0x0C @ lcd_cmd 0x01 @ lcd_cmd 0x80"

definition adc_init :: "hw_op list" where
  "adc_init = [Adc_init]"

definition adc_initBG :: "hw_op list" where
  "adc_initBG = [Adc_initBG]"

text \<open>
  \<^verbatim>\<open>read_adc(channel)\<close> selects channel \<^verbatim>\<open>channel & 0x0F\<close>, starts a conversion, waits for it
  and returns the register \<^verbatim>\<open>ADC\<close> as \<^verbatim>\<open>uint16_t\<close>.
\<close>

definition read_adc :: "inputs \<Rightarrow> 8 word \<Rightarrow> 16 word" where
  "read_adc e channel = ucast (ADC e (channel AND 0x0F))"

definition print_APEL :: "hw_op list" where
  "print_APEL =
     lcd_cmd 0x81 @ lcd_data (CHR 0x00) @ lcd_data (CHR 0x2E) @ lcd_data (CHR 0x01) @
     lcd_data (CHR 0x2E) @ lcd_data (CHR 0x02) @ lcd_data (CHR 0x2E) @ lcd_data (CHR 0x03) @
     lcd_str ''. Scan''"

definition welcome_screen :: "hw_op list" where
  "welcome_screen = print_APEL @ lcd_cmd 0xC3 @ lcd_str ''UNLV  2017''"

definition store_cust_chars :: "hw_op list" where
  "store_cust_chars =
     lcd_cmd 0x40 @ lcd_data (CHR 0x03) @ lcd_data (CHR 0x07) @ lcd_data (CHR 0x0B) @
       lcd_data (CHR 0x13) @ lcd_data (CHR 0x1F) @ lcd_data (CHR 0x13) @ lcd_data (CHR 0x13) @
       lcd_data (CHR 0x00) @
     lcd_cmd 0x48 @ lcd_data (CHR 0x1E) @ lcd_data (CHR 0x1B) @ lcd_data (CHR 0x1B) @
       lcd_data (CHR 0x1E) @ lcd_data (CHR 0x18) @ lcd_data (CHR 0x18) @ lcd_data (CHR 0x18) @
       lcd_data (CHR 0x00) @
     lcd_cmd 0x50 @ lcd_data (CHR 0x1E) @ lcd_data (CHR 0x18) @ lcd_data (CHR 0x1E) @
       lcd_data (CHR 0x18) @ lcd_data (CHR 0x18) @ lcd_data (CHR 0x1E) @ lcd_data (CHR 0x1E) @
       lcd_data (CHR 0x00) @
     lcd_cmd 0x58 @ lcd_data (CHR 0x10) @ lcd_data (CHR 0x10) @ lcd_data (CHR 0x10) @
       lcd_data (CHR 0x10) @ lcd_data (CHR 0x10) @ lcd_data (CHR 0x1E) @ lcd_data (CHR 0x1E) @
       lcd_data (CHR 0x00)"

subsection \<open>\<^verbatim>\<open>print_volt\<close>\<close>

text \<open>
  \<^verbatim>\<open>(int) x\<close> for a floating-point \<open>x\<close> discards the fraction (truncation towards zero);
  C leaves the conversion undefined when the integral part is not a value of \<^verbatim>\<open>int\<close>.
\<close>

definition INT_MAX :: int where
  "INT_MAX = 32767"

definition INT_MIN :: int where
  "INT_MIN = - 32768"

definition int_of_float :: "real \<Rightarrow> int option" where
  "int_of_float x =
     (let t = (if 0 \<le> x then \<lfloor>x\<rfloor> else \<lceil>x\<rceil>)
      in if INT_MIN \<le> t \<and> t \<le> INT_MAX then Some t else None)"

text \<open>
  The conversion \<^verbatim>\<open>%u\<close> of \<^verbatim>\<open>sprintf\<close> prints an unsigned value in decimal, without
  padding. The source passes it an \<^verbatim>\<open>int\<close>, which is defined only for a value that is
  not negative.
\<close>

definition digit_char :: "nat \<Rightarrow> char" where
  "digit_char d = ''0123456789'' ! d"

fun decimal :: "nat \<Rightarrow> string" where
  "decimal n = (if n < 10 then [digit_char n] else decimal (n div 10) @ [digit_char (n mod 10)])"

definition fmt_u :: "int \<Rightarrow> string option" where
  "fmt_u n = (if 0 \<le> n then Some (decimal (nat n)) else None)"

text \<open>
  Single precision. A value has a significand of 24 bits; \<open>ulp_exp x\<close> is the exponent of
  the unit in the last place at \<open>x\<close>: the least \<open>k\<close> from \<open>- 149\<close> on with
  \<open>\<bar>x\<bar> < 2 powi (k + 24)\<close> (\<open>- 149\<close> throughout the subnormal range). \<open>rne\<close> rounds to
  the nearest integer, a tie to the even one; \<open>binary32 x\<close> is \<open>x\<close> rounded to the
  nearest multiple of its unit in the last place. Magnitudes from \<open>2 powi 128\<close> on, where
  single precision overflows, are outside what \<^verbatim>\<open>print_volt\<close> converts to \<^verbatim>\<open>int\<close>.
\<close>

definition rne :: "real \<Rightarrow> int" where
  "rne x =
     (let f = \<lfloor>x\<rfloor>; r = x - real_of_int f
      in if r < 1 / 2 then f else if 1 / 2 < r then f + 1 else if even f then f else f + 1)"

fun exp_from :: "nat \<Rightarrow> int \<Rightarrow> real \<Rightarrow> int" where
  "exp_from 0 k x = k"
| "exp_from (Suc n) k x = (if x < 2 powi (k + 24) then k else exp_from n (k + 1) x)"

definition ulp_exp :: "real \<Rightarrow> int" where
  "ulp_exp x = exp_from 254 (- 149) \<bar>x\<bar>"

definition binary32 :: "real \<Rightarrow> real" where
  "binary32 x = real_of_int (rne (x / 2 powi ulp_exp x)) * 2 powi ulp_exp x"

text \<open>
  The text that \<^verbatim>\<open>print_volt\<close> builds in its buffer \<^verbatim>\<open>number\<close>: one of three
  \<^verbatim>\<open>sprintf\<close> formats, chosen by \<^verbatim>\<open>decV\<close>. The parameter \<^verbatim>\<open>voltage\<close> is a
  \<^verbatim>\<open>float\<close>; \<^verbatim>\<open>(float)intV\<close> is exact; the subtraction and the product (by the \<^verbatim>\<open>int\<close>
  1000, converted to \<^verbatim>\<open>float\<close>) are single-precision operations, and \<^verbatim>\<open>(int)\<close>
  truncates the rounded product.
\<close>

definition volt_number :: "real \<Rightarrow> string option" where
  "volt_number voltage =
     (let v = binary32 voltage in
      case int_of_float v of
        None \<Rightarrow> None
      | Some intV \<Rightarrow>
          (let diffV = binary32 (v - real_of_int intV) in
           case int_of_float (binary32 (diffV * 1000)) of
             None \<Rightarrow> None
           | Some decV \<Rightarrow>
               (case (fmt_u intV, fmt_u decV) of
                  (Some i, Some d) \<Rightarrow>
                    Some (if decV < 10 then i @ ''.00'' @ d @ '' V''
                          else if decV < 100 then i @ ''.0'' @ d @ '' V''
                          else i @ ''.'' @ d @ '' V'')
                | _ \<Rightarrow> None)))"

definition print_volt :: "real \<Rightarrow> hw_op list option" where
  "print_volt voltage = map_option lcd_str (volt_number voltage)"

subsection \<open>\<^verbatim>\<open>main\<close>\<close>

text \<open>
  The variables of \<^verbatim>\<open>main\<close>. \<^verbatim>\<open>state\<close> is an \<^verbatim>\<open>int\<close> in the source, with the
  meaning its comment gives: 0 initial mode (welcome screen), 1 start mode (running
  test), 2 stop mode (peak displayed), 3 read bias mode.
\<close>

record vars =
  peakVoltage :: int
  Vread :: int
  bias :: real
  peak :: real
  state :: int

text \<open>
  The two conversions of a sample to a voltage, as written at the STOP branch and at
  \<^verbatim>\<open>case 3\<close> of the switch.
\<close>

definition peak_of :: "int \<Rightarrow> real" where
  "peak_of n = real_of_int n * 1.1 * ((495.2 + 101.65) / 101.65) / 1023.0"

definition bias_of :: "int \<Rightarrow> real" where
  "bias_of n = real_of_int n * 5.0 * ((498.1 + 101.8) / 101.8) / 1023.0"

text \<open>
  The state before the loop: the initialisers of \<^verbatim>\<open>main\<close>. \<^verbatim>\<open>bias\<close> has none, so its
  first value is a parameter; the loop writes it before reading it.
\<close>

definition power_up :: "real \<Rightarrow> vars" where
  "power_up bias0 = \<lparr>peakVoltage = 0, Vread = 0, bias = bias0, peak = 0.0, state = 0\<rparr>"

definition startup :: "hw_op list" where
  "startup = lcd_init @ store_cust_chars @ welcome_screen"

text \<open>The if/else-if chain over the buttons.\<close>

definition buttons :: "inputs \<Rightarrow> vars \<Rightarrow> (vars \<times> hw_op list) option" where
  "buttons e v =
     (if (PIND e AND 0x01) = 0x01 then
        Some (v\<lparr>state := 1, peakVoltage := 0\<rparr>,
              adc_initBG @ lcd_init @ print_APEL @ lcd_str ''. Scan'' @ lcd_cmd 0xC3 @
              lcd_str ''Running...'')
      else if (PIND e AND 0x02) = 0x02 then
        (case print_volt (peak_of (peakVoltage v)) of
           None \<Rightarrow> None
         | Some shown \<Rightarrow>
             Some (v\<lparr>state := 2, peak := peak_of (peakVoltage v)\<rparr>,
                   lcd_init @ lcd_cmd 0x82 @ lcd_str ''Peak Voltage'' @ lcd_cmd 0xC0 @ shown))
      else if (PIND e AND 0x04) = 0x04 then
        Some (v\<lparr>state := 3\<rparr>,
              adc_init @ lcd_init @ lcd_cmd 0x83 @ lcd_str ''SiPM Bias'' @ lcd_cmd 0xC2)
      else Some (v, []))"

text \<open>
  The \<^verbatim>\<open>switch(state)\<close>. The \<^verbatim>\<open>uint16_t\<close> result of \<^verbatim>\<open>read_adc\<close> is assigned to the
  \<^verbatim>\<open>int\<close> \<^verbatim>\<open>Vread\<close>: avr-gcc reads the 16 bits as two's complement.
\<close>

definition switch_state :: "inputs \<Rightarrow> vars \<Rightarrow> (vars \<times> hw_op list) option" where
  "switch_state e v =
     (if state v = 1 then
        (let r = sint (read_adc e 7) in
         Some (v\<lparr>Vread := r, peakVoltage := (if r > peakVoltage v then r else peakVoltage v)\<rparr>,
               [Adc_read 7]))
      else if state v = 3 then
        (let r = sint (read_adc e 1) in
         case print_volt (bias_of r) of
           None \<Rightarrow> None
         | Some shown \<Rightarrow>
             Some (v\<lparr>Vread := r, bias := bias_of r\<rparr>, [Adc_read 1] @ lcd_cmd 0xC0 @ shown))
      else Some (v, []))"

text \<open>One iteration of \<^verbatim>\<open>while(1)\<close>.\<close>

definition loop_body :: "inputs \<Rightarrow> vars \<Rightarrow> (vars \<times> hw_op list) option" where
  "loop_body e v =
     (case buttons e v of
        None \<Rightarrow> None
      | Some (v1, out1) \<Rightarrow>
          (case switch_state e v1 of
             None \<Rightarrow> None
           | Some (v2, out2) \<Rightarrow> Some (v2, out1 @ out2)))"

text \<open>
  The loop never ends; \<open>main_loop es\<close> is its first \<open>length es\<close> iterations, the
  \<open>i\<close>-th reading the inputs \<open>es ! i\<close>. It returns the variables and everything sent to
  the hardware so far.
\<close>

fun main_loop :: "inputs list \<Rightarrow> vars \<times> hw_op list \<Rightarrow> (vars \<times> hw_op list) option" where
  "main_loop [] s = Some s"
| "main_loop (e # es) s =
     (case loop_body e (fst s) of
        None \<Rightarrow> None
      | Some (v', out) \<Rightarrow> main_loop es (v', snd s @ out))"

definition main :: "real \<Rightarrow> inputs list \<Rightarrow> (vars \<times> hw_op list) option" where
  "main bias0 es = main_loop es (power_up bias0, startup)"

subsection \<open>The vocabulary of the specification\<close>

text \<open>
  The specification names the conversion of a sample to a voltage \<open>reconstruct\<close> and
  gives it a calibration profile; the source writes the two conversions out, with the
  constants in place (\<open>peak_of\<close> and \<open>bias_of\<close> above). The definitions of this
  subsection follow the specification's words, to be compared with the source's.
\<close>

record CalibrationProfile =
  referenceVoltage :: real
  dividerNumerator :: real
  dividerDenominator :: real
  fullScaleCode :: real

definition reconstruct :: "real \<Rightarrow> CalibrationProfile \<Rightarrow> real" where
  "reconstruct sample profile =
     sample * referenceVoltage profile *
       (dividerNumerator profile / dividerDenominator profile) / fullScaleCode profile"

definition peakProfile :: CalibrationProfile where
  "peakProfile =
     \<lparr>referenceVoltage = 1.1, dividerNumerator = 495.2 + 101.65,
      dividerDenominator = 101.65, fullScaleCode = 1023\<rparr>"

definition biasProfile :: CalibrationProfile where
  "biasProfile =
     \<lparr>referenceVoltage = 5.0, dividerNumerator = 498.1 + 101.8,
      dividerDenominator = 101.8, fullScaleCode = 1023\<rparr>"

text \<open>
  The specification's \<open>format\<close>: the integer part in decimal, a decimal point, the three
  decimal digits of the fractional part times 1000, truncated, a space and \<open>V\<close>.
\<close>

definition digits3 :: "nat \<Rightarrow> string" where
  "digits3 n = [digit_char (n div 100), digit_char (n div 10 mod 10), digit_char (n mod 10)]"

definition format_volt :: "real \<Rightarrow> string" where
  "format_volt v = decimal (nat \<lfloor>v\<rfloor>) @ ''.'' @ digits3 (nat \<lfloor>frac v * 1000\<rfloor>) @ '' V''"

text \<open>
  The same with the product taken in single precision, rounded before it is truncated:
  what \<^verbatim>\<open>print_volt\<close> shows for a single-precision voltage.
\<close>

definition format_float :: "real \<Rightarrow> string" where
  "format_float v =
     decimal (nat \<lfloor>v\<rfloor>) @ ''.'' @ digits3 (nat \<lfloor>binary32 (frac v * 1000)\<rfloor>) @ '' V''"

text \<open>The three buttons, as the conditions of the if/else-if chain test them.\<close>

definition start_pushed :: "inputs \<Rightarrow> bool" where
  "start_pushed e = ((PIND e AND 0x01) = 0x01)"

definition stop_pushed :: "inputs \<Rightarrow> bool" where
  "stop_pushed e = ((PIND e AND 0x02) = 0x02)"

definition readBias_pushed :: "inputs \<Rightarrow> bool" where
  "readBias_pushed e = ((PIND e AND 0x04) = 0x04)"

definition no_button :: "inputs \<Rightarrow> bool" where
  "no_button e = (\<not> start_pushed e \<and> \<not> stop_pushed e \<and> \<not> readBias_pushed e)"

text \<open>The sample an iteration reads on the peak channel, as \<^verbatim>\<open>Vread\<close> receives it.\<close>

definition peak_sample :: "inputs \<Rightarrow> int" where
  "peak_sample e = sint (read_adc e 7)"

definition bias_sample :: "inputs \<Rightarrow> int" where
  "bias_sample e = sint (read_adc e 1)"

text \<open>
  The accumulated peak after iterations \<open>es\<close> that each take a sample on the peak
  channel, starting from the accumulator value \<open>p\<close>.
\<close>

definition running_peak :: "int \<Rightarrow> inputs list \<Rightarrow> int" where
  "running_peak p es = foldl (\<lambda>m e. max m (peak_sample e)) p es"

text \<open>
  What holds of the variables whenever the loop is about to run an iteration: the peak
  is a sample of the 10-bit converter, the state is one of the four of the source's
  comment, and in state 0 no sample has been taken yet.
\<close>

definition vars_ok :: "vars \<Rightarrow> bool" where
  "vars_ok v =
     (0 \<le> peakVoltage v \<and> peakVoltage v \<le> 1023 \<and>
      (state v = 0 \<and> peakVoltage v = 0 \<or> state v = 1 \<or> state v = 2 \<or> state v = 3))"

section \<open>Properties\<close>

subsection \<open>Samples and their decimal rendering\<close>

lemma uint_adc_range: "0 \<le> uint (w :: 10 word) \<and> uint w \<le> 1023"
  using uint_bounded [of w] by simp

lemma sint_read_adc: "sint (read_adc e c) = uint (ADC e (c AND 0x0F))"
proof -
  let ?w = "ADC e (c AND 0x0F)"
  have "uint ?w < 2 ^ 15" using uint_adc_range [of ?w] by simp
  moreover have "- (2 ^ 15) \<le> uint ?w"
  proof -
    have "- (2 ^ 15) \<le> (0::int)" by simp
    also have "0 \<le> uint ?w" by simp
    finally show ?thesis .
  qed
  ultimately have "signed_take_bit 15 (uint ?w) = uint ?w"
    by (rule signed_take_bit_int_eq_self [rotated])
  then show ?thesis
    unfolding read_adc_def
    by (simp add: sint_uint uint_up_ucast is_up)
qed

lemma decimal_1: "n < 10 \<Longrightarrow> decimal n = [digit_char n]"
  by simp

lemma decimal_2: "10 \<le> n \<Longrightarrow> n < 100 \<Longrightarrow> decimal n = [digit_char (n div 10), digit_char (n mod 10)]"
  by (subst decimal.simps) (simp add: decimal_1)

lemma decimal_3:
  assumes "100 \<le> n" and "n < 1000"
  shows "decimal n = [digit_char (n div 100), digit_char (n div 10 mod 10), digit_char (n mod 10)]"
proof -
  have a: "10 \<le> n div 10" and b: "n div 10 < 100" using assms by auto
  have c: "n div 10 div 10 = n div 100" by (simp add: div_mult2_eq [symmetric])
  have "decimal n = decimal (n div 10) @ [digit_char (n mod 10)]"
    using assms by (subst decimal.simps) simp
  then show ?thesis
    using decimal_2 [OF a b] c by simp
qed

lemma lcd_str_map: "CHR 0x00 \<notin> set s \<Longrightarrow> lcd_str s = map Lcd_data s"
  by (induction s) (auto simp: lcd_data_def)

lemma digit_char_not_nul: "d < 10 \<Longrightarrow> digit_char d \<noteq> CHR 0x00"
proof -
  assume "d < 10"
  then have "d \<in> {0, 1, 2, 3, 4, 5, 6, 7, 8, 9}" by auto
  then show ?thesis by (auto simp: digit_char_def)
qed

lemma decimal_not_nul: "CHR 0x00 \<notin> set (decimal n)"
proof (induction n rule: decimal.induct)
  case (1 n)
  show ?case
  proof (cases "n < 10")
    case True
    then show ?thesis using digit_char_not_nul [of n] by simp
  next
    case False
    have "n mod 10 < 10" by simp
    then have "digit_char (n mod 10) \<noteq> CHR 0x00" by (rule digit_char_not_nul)
    moreover have "decimal n = decimal (n div 10) @ [digit_char (n mod 10)]"
      using False by (subst decimal.simps) simp
    ultimately show ?thesis using 1 False by auto
  qed
qed

subsection \<open>Digits and the conversion to \<^verbatim>\<open>int\<close>\<close>

lemma digit_char_0: "digit_char 0 = CHR ''0''"
  by (simp add: digit_char_def)

lemma point_digits_1: "d < 10 \<Longrightarrow> ''.00'' @ decimal d = ''.'' @ digits3 d"
  by (simp add: digits3_def digit_char_0)

lemma point_digits_2: "10 \<le> d \<Longrightarrow> d < 100 \<Longrightarrow> ''.0'' @ decimal d = ''.'' @ digits3 d"
  using decimal_2 [of d] by (simp add: digits3_def digit_char_0)

lemma point_digits_3: "100 \<le> d \<Longrightarrow> d < 1000 \<Longrightarrow> ''.'' @ decimal d = ''.'' @ digits3 d"
  using decimal_3 [of d] by (simp add: digits3_def)

lemma int_of_float_floor:
  "0 \<le> x \<Longrightarrow> x < 32768 \<Longrightarrow> int_of_float x = Some \<lfloor>x\<rfloor>"
proof -
  assume a: "0 \<le> x" and b: "x < 32768"
  have "\<lfloor>x\<rfloor> < 32768" using b by (simp add: floor_less_iff)
  moreover have "0 \<le> \<lfloor>x\<rfloor>" using a by simp
  ultimately show ?thesis using a by (simp add: int_of_float_def INT_MAX_def INT_MIN_def)
qed

subsection \<open>Single-precision rounding\<close>

lemma rne_int [simp]: "rne (real_of_int n) = n"
  by (simp add: rne_def)

lemma rne_le: "x < real_of_int n + 1 / 2 \<Longrightarrow> rne x \<le> n"
proof -
  assume a: "x < real_of_int n + 1 / 2"
  have f: "real_of_int \<lfloor>x\<rfloor> \<le> x" "x < real_of_int \<lfloor>x\<rfloor> + 1" by linarith+
  show ?thesis
  proof (cases "x - real_of_int \<lfloor>x\<rfloor> < 1 / 2")
    case True
    have "real_of_int \<lfloor>x\<rfloor> < real_of_int n + 1" using a f by linarith
    then have "\<lfloor>x\<rfloor> \<le> n" by linarith
    then show ?thesis using True by (simp add: rne_def)
  next
    case False
    then have "real_of_int \<lfloor>x\<rfloor> < real_of_int n" using a by linarith
    then have "\<lfloor>x\<rfloor> + 1 \<le> n" by linarith
    then show ?thesis unfolding rne_def Let_def by (auto split: if_splits)
  qed
qed

lemma rne_ge: "real_of_int n - 1 / 2 < x \<Longrightarrow> n \<le> rne x"
proof -
  assume a: "real_of_int n - 1 / 2 < x"
  have f: "real_of_int \<lfloor>x\<rfloor> \<le> x" "x < real_of_int \<lfloor>x\<rfloor> + 1" by linarith+
  show ?thesis
  proof (cases "1 / 2 < x - real_of_int \<lfloor>x\<rfloor>")
    case True
    have "real_of_int n < real_of_int \<lfloor>x\<rfloor> + 2" using a f by linarith
    then have "n \<le> \<lfloor>x\<rfloor> + 1" by linarith
    then show ?thesis using True by (simp add: rne_def)
  next
    case False
    then have "real_of_int n < real_of_int \<lfloor>x\<rfloor> + 1" using a by linarith
    then have "n \<le> \<lfloor>x\<rfloor>" by linarith
    then show ?thesis unfolding rne_def Let_def by (auto split: if_splits)
  qed
qed

lemma rne_le_int: "x \<le> real_of_int n \<Longrightarrow> rne x \<le> n"
  by (rule rne_le) linarith

lemma rne_ge_int: "real_of_int n \<le> x \<Longrightarrow> n \<le> rne x"
  by (rule rne_ge) linarith

lemma pow2_mono: "i \<le> j \<Longrightarrow> (2::real) powi i \<le> 2 powi j"
  by (rule power_int_increasing) simp_all

lemma pow2_nat: "0 \<le> i \<Longrightarrow> (2::real) powi i = real_of_int (2 ^ nat i)"
  by (simp add: power_int_def)

lemma pow2_split: "(2::real) powi i = 2 powi (i - k) * 2 powi k"
  using power_int_add [of "2::real" "i - k" k] by simp

lemma exp_from_ge: "k \<le> exp_from n k x"
proof (induction n arbitrary: k)
  case 0
  show ?case by simp
next
  case (Suc n)
  show ?case using Suc [of "k + 1"] by simp
qed

lemma exp_from_less: "x < 2 powi (k + int n + 24) \<Longrightarrow> x < 2 powi (exp_from n k x + 24)"
proof (induction n arbitrary: k)
  case 0
  then show ?case by simp
next
  case (Suc n)
  have "k + 1 + int n + 24 = k + int (Suc n) + 24" by simp
  then have "x < 2 powi (k + 1 + int n + 24)" using Suc.prems by simp
  from Suc.IH [OF this] show ?case by simp
qed

lemma exp_from_least: "k \<le> j \<Longrightarrow> x < 2 powi (j + 24) \<Longrightarrow> exp_from n k x \<le> j"
proof (induction n arbitrary: k)
  case 0
  then show ?case by simp
next
  case (Suc n)
  show ?case
  proof (cases "x < 2 powi (k + 24)")
    case True
    then show ?thesis using Suc.prems by simp
  next
    case False
    have "k < j"
    proof (rule ccontr)
      assume "\<not> k < j"
      then have "j + 24 \<le> k + 24" by simp
      then have "(2::real) powi (j + 24) \<le> 2 powi (k + 24)" by (rule pow2_mono)
      then show False using False Suc.prems(2) by linarith
    qed
    then have "k + 1 \<le> j" by simp
    from Suc.IH [OF this Suc.prems(2)] show ?thesis using False by simp
  qed
qed

lemma exp_from_lower: "k < exp_from n k x \<Longrightarrow> 2 powi (exp_from n k x + 23) \<le> x"
proof (induction n arbitrary: k)
  case 0
  then show ?case by simp
next
  case (Suc n)
  show ?case
  proof (cases "x < 2 powi (k + 24)")
    case True
    then show ?thesis using Suc.prems by simp
  next
    case False
    then have e: "exp_from (Suc n) k x = exp_from n (k + 1) x" by simp
    show ?thesis
    proof (cases "k + 1 < exp_from n (k + 1) x")
      case True
      from Suc.IH [OF this] show ?thesis using e by simp
    next
      case False
      then have "exp_from n (k + 1) x = k + 1" using exp_from_ge [of "k + 1" n x] by simp
      then have "exp_from (Suc n) k x + 23 = k + 24" using e by simp
      moreover have "2 powi (k + 24) \<le> x" using \<open>\<not> x < 2 powi (k + 24)\<close> by linarith
      ultimately show ?thesis by (simp only:)
    qed
  qed
qed

lemma ulp_exp_ge: "- 149 \<le> ulp_exp x"
  unfolding ulp_exp_def by (rule exp_from_ge)

lemma ulp_exp_least: "- 149 \<le> j \<Longrightarrow> \<bar>x\<bar> < 2 powi (j + 24) \<Longrightarrow> ulp_exp x \<le> j"
  unfolding ulp_exp_def by (rule exp_from_least)

lemma ulp_exp_less: "\<bar>x\<bar> < 2 powi 129 \<Longrightarrow> \<bar>x\<bar> < 2 powi (ulp_exp x + 24)"
  unfolding ulp_exp_def by (rule exp_from_less) simp

lemma ulp_exp_lower: "- 149 < ulp_exp x \<Longrightarrow> 2 powi (ulp_exp x + 23) \<le> \<bar>x\<bar>"
  unfolding ulp_exp_def by (rule exp_from_lower)

lemma exp_from_stop: "exp_from n k x < k + int n \<Longrightarrow> x < 2 powi (exp_from n k x + 24)"
proof (induction n arbitrary: k)
  case 0
  then show ?case by simp
next
  case (Suc n)
  show ?case
  proof (cases "x < 2 powi (k + 24)")
    case True
    then show ?thesis by simp
  next
    case False
    then have "exp_from n (k + 1) x < k + 1 + int n" using Suc.prems by simp
    from Suc.IH [OF this] show ?thesis using False by simp
  qed
qed

lemma ulp_exp_eq:
  assumes "- 149 \<le> k" and "k \<le> 105"
    and "k = - 149 \<or> 2 powi (k + 23) \<le> \<bar>x\<bar>" and "\<bar>x\<bar> < 2 powi (k + 24)"
  shows "ulp_exp x = k"
proof -
  have le: "ulp_exp x \<le> k" using assms(1,4) by (rule ulp_exp_least)
  have "\<not> ulp_exp x < k"
  proof
    assume l: "ulp_exp x < k"
    then have "k \<noteq> - 149" using ulp_exp_ge [of x] by simp
    then have b: "2 powi (k + 23) \<le> \<bar>x\<bar>" using assms(3) by simp
    have "exp_from 254 (- 149) \<bar>x\<bar> < - 149 + int 254"
      using l assms(2) by (simp add: ulp_exp_def)
    then have "\<bar>x\<bar> < 2 powi (ulp_exp x + 24)"
      unfolding ulp_exp_def by (rule exp_from_stop)
    moreover have "(2::real) powi (ulp_exp x + 24) \<le> 2 powi (k + 23)"
      using l by (intro pow2_mono) simp
    ultimately show False using b by linarith
  qed
  then show ?thesis using le by simp
qed

lemma binary32_grid_le:
  "x \<le> real_of_int n * 2 powi ulp_exp x \<Longrightarrow> binary32 x \<le> real_of_int n * 2 powi ulp_exp x"
proof -
  let ?u = "(2::real) powi ulp_exp x"
  assume "x \<le> real_of_int n * ?u"
  moreover have u: "0 < ?u" by simp
  ultimately have "x / ?u \<le> real_of_int n" by (simp add: field_simps)
  then have "rne (x / ?u) \<le> n" by (rule rne_le_int)
  then have "real_of_int (rne (x / ?u)) \<le> real_of_int n" by simp
  then show ?thesis unfolding binary32_def using u by (simp add: mult_right_mono)
qed

lemma binary32_grid_ge:
  "real_of_int n * 2 powi ulp_exp x \<le> x \<Longrightarrow> real_of_int n * 2 powi ulp_exp x \<le> binary32 x"
proof -
  let ?u = "(2::real) powi ulp_exp x"
  assume "real_of_int n * ?u \<le> x"
  moreover have u: "0 < ?u" by simp
  ultimately have "real_of_int n \<le> x / ?u" by (simp add: field_simps)
  then have "n \<le> rne (x / ?u)" by (rule rne_ge_int)
  then have "real_of_int n \<le> real_of_int (rne (x / ?u))" by simp
  then show ?thesis unfolding binary32_def using u by (simp add: mult_right_mono)
qed

lemma binary32_nonneg: "0 \<le> x \<Longrightarrow> 0 \<le> binary32 x"
  using binary32_grid_ge [of 0 x] by simp

lemma binary32_zero [simp]: "binary32 0 = 0"
  using rne_int [of 0] by (simp add: binary32_def)

lemma binary32_le_pow2:
  assumes "0 \<le> x" and "x < 2 powi j" and "- 125 \<le> j"
  shows "binary32 x \<le> 2 powi j"
proof -
  have "- 149 \<le> j - 24" using assms(3) by simp
  moreover have "\<bar>x\<bar> < 2 powi ((j - 24) + 24)" using assms(1,2) by simp
  ultimately have k: "ulp_exp x \<le> j - 24" by (rule ulp_exp_least)
  then have "0 \<le> j - ulp_exp x" by simp
  then have "(2::real) powi (j - ulp_exp x) = real_of_int (2 ^ nat (j - ulp_exp x))"
    by (rule pow2_nat)
  then have g: "(2::real) powi j = real_of_int (2 ^ nat (j - ulp_exp x)) * 2 powi ulp_exp x"
    using pow2_split [of j "ulp_exp x"] by simp
  have "x \<le> real_of_int (2 ^ nat (j - ulp_exp x)) * 2 powi ulp_exp x"
    using assms(2) g by linarith
  from binary32_grid_le [OF this] show ?thesis using g by simp
qed

lemma binary32_exact:
  assumes "- 149 \<le> i" and "\<bar>n\<bar> < 2 ^ 24"
  shows "binary32 (real_of_int n * 2 powi i) = real_of_int n * 2 powi i"
proof -
  define x where "x = real_of_int n * 2 powi i"
  define k where "k = ulp_exp x"
  have "\<bar>x\<bar> = real_of_int \<bar>n\<bar> * 2 powi i" by (simp add: x_def abs_mult)
  moreover have "real_of_int \<bar>n\<bar> < real_of_int (2 ^ 24)"
    using assms(2) by (simp only: of_int_less_iff)
  ultimately have "\<bar>x\<bar> < 2 ^ 24 * 2 powi i" by (simp add: mult_strict_right_mono)
  also have "\<dots> = 2 powi (i + 24)"
    using power_int_add [of "2::real" i 24] by simp
  finally have "k \<le> i" unfolding k_def using assms(1) ulp_exp_least by blast
  then have "0 \<le> i - k" by simp
  then have "(2::real) powi (i - k) = real_of_int (2 ^ nat (i - k))"
    by (rule pow2_nat)
  then have eq: "x = real_of_int (n * 2 ^ nat (i - k)) * 2 powi k"
    using pow2_split [of i k] by (simp add: x_def)
  then have "x / 2 powi k = real_of_int (n * 2 ^ nat (i - k))"
    by (simp add: field_simps)
  then have "rne (x / 2 powi k) = n * 2 ^ nat (i - k)"
    by (simp only: rne_int)
  then have "binary32 x = real_of_int (n * 2 ^ nat (i - k)) * 2 powi k"
    unfolding binary32_def k_def by simp
  then have "binary32 x = x" using eq by (simp only:)
  then show ?thesis by (simp only: x_def)
qed

lemma binary32_idem:
  assumes "0 \<le> x" and "x < 2 powi 129"
  shows "binary32 (binary32 x) = binary32 x"
proof -
  define k where "k = ulp_exp x"
  define m where "m = rne (x / 2 powi k)"
  have v: "binary32 x = real_of_int m * 2 powi k"
    by (simp add: binary32_def k_def m_def)
  have k: "- 149 \<le> k" unfolding k_def by (rule ulp_exp_ge)
  have u: "(0::real) < 2 powi k" by simp
  have "\<bar>x\<bar> < 2 powi (k + 24)"
    unfolding k_def using assms by (intro ulp_exp_less) simp
  then have "x < 2 ^ 24 * 2 powi k"
    using power_int_add [of "2::real" k 24] assms(1) by (simp add: mult.commute)
  then have "x / 2 powi k \<le> real_of_int (2 ^ 24)" using u by (simp add: field_simps)
  then have m1: "m \<le> 2 ^ 24" unfolding m_def by (rule rne_le_int)
  have "real_of_int 0 \<le> x / 2 powi k" using assms(1) by simp
  then have m0: "0 \<le> m" unfolding m_def by (rule rne_ge_int)
  show ?thesis
  proof (cases "m = 2 ^ 24")
    case True
    have "real_of_int m * 2 powi k = real_of_int 1 * 2 powi (k + 24)"
      using power_int_add [of "2::real" k 24] True by (simp add: mult.commute)
    moreover have "binary32 (real_of_int 1 * 2 powi (k + 24)) = real_of_int 1 * 2 powi (k + 24)"
      using k by (intro binary32_exact) simp_all
    ultimately show ?thesis unfolding v by (simp only:)
  next
    case False
    then have "\<bar>m\<bar> < 2 ^ 24" using m0 m1 by simp
    with k show ?thesis unfolding v by (rule binary32_exact)
  qed
qed

lemma frac_binary32:
  assumes b: "binary32 v = v" and "0 \<le> v" and "v < 32768"
  shows "binary32 (frac v) = frac v \<and> frac v \<le> 1 - 1 / 2 ^ 24"
proof -
  define k where "k = ulp_exp v"
  define m where "m = rne (v / 2 powi k)"
  have v: "v = real_of_int m * 2 powi k"
    using b by (simp add: binary32_def k_def m_def)
  have k: "- 149 \<le> k" unfolding k_def by (rule ulp_exp_ge)
  have u: "(0::real) < 2 powi k" by simp
  have "(32768::real) \<le> 2 powi 129" by simp
  then have "\<bar>v\<bar> < 2 powi 129" using assms(2,3) by linarith
  then have lt: "\<bar>v\<bar> < 2 powi (k + 24)" unfolding k_def by (rule ulp_exp_less)
  then have "real_of_int m * 2 powi k < 2 ^ 24 * 2 powi k"
    using power_int_add [of "2::real" k 24] assms(2) v by (simp add: mult.commute)
  then have "real_of_int m < real_of_int (2 ^ 24)" using u by simp
  then have m1: "m < 2 ^ 24" by (simp only: of_int_less_iff)
  have "0 \<le> real_of_int m * 2 powi k" using assms(2) v by simp
  then have "0 \<le> real_of_int m" using u by (simp add: zero_le_mult_iff)
  then have m0: "0 \<le> m" by simp
  show ?thesis
  proof (cases "0 \<le> k")
    case True
    then have "v = real_of_int (m * 2 ^ nat k)" using v by (simp add: pow2_nat)
    then have f0: "frac v = 0" by (simp only: frac_of_int)
    show ?thesis unfolding f0 by simp
  next
    case False
    define q :: int where "q = 2 ^ nat (- k)"
    have q0: "0 < q" by (simp add: q_def)
    have "(2::real) powi k = inverse (2 powi (- k))" by (simp add: power_int_minus)
    also have "(2::real) powi (- k) = real_of_int q" using False by (simp add: pow2_nat q_def)
    finally have pk: "(2::real) powi k = 1 / real_of_int q" by (simp add: field_simps)
    then have vq: "v = real_of_int m / real_of_int q" using v by simp
    then have fl: "\<lfloor>v\<rfloor> = m div q" by (simp add: floor_divide_of_int_eq)
    have "real_of_int m = real_of_int (m div q) * real_of_int q + real_of_int (m mod q)"
      by (metis div_mult_mod_eq of_int_add of_int_mult)
    then have "real_of_int m / real_of_int q - real_of_int (m div q) =
        real_of_int (m mod q) / real_of_int q"
      using q0 by (simp add: field_simps)
    moreover have "frac v = real_of_int m / real_of_int q - real_of_int (m div q)"
      unfolding frac_def fl using vq by simp
    ultimately have fr: "frac v = real_of_int (m mod q) * 2 powi k"
      unfolding pk by simp
    have n0: "0 \<le> m mod q" and n1: "m mod q < q" using q0 by simp_all
    have "m mod q \<le> m" using m0 q0 by (simp add: zmod_le_nonneg_dividend)
    then have "\<bar>m mod q\<bar> < 2 ^ 24" using n0 m1 by simp
    with k have ex: "binary32 (frac v) = frac v" unfolding fr by (rule binary32_exact)
    have "frac v \<le> 1 - 1 / 2 ^ 24"
    proof (cases "- 24 \<le> k")
      case True
      have "m mod q \<le> q - 1" using n1 by simp
      then have "real_of_int (m mod q) \<le> real_of_int q - 1" by linarith
      then have "real_of_int (m mod q) / real_of_int q \<le> (real_of_int q - 1) / real_of_int q"
        using q0 by (simp add: divide_right_mono)
      then have "frac v \<le> 1 - 2 powi k" using q0 unfolding fr pk by (simp add: field_simps)
      moreover have "(2::real) powi (- 24) \<le> 2 powi k" using True by (rule pow2_mono)
      ultimately show ?thesis by simp
    next
      case False
      then have "k + 24 \<le> - 1" by simp
      then have "(2::real) powi (k + 24) \<le> 2 powi (- 1)" by (rule pow2_mono)
      then have "v < 1 / 2" using lt assms(2) by simp
      moreover have "frac v \<le> v" using assms(2) by (simp add: frac_def)
      ultimately show ?thesis by simp
    qed
    with ex show ?thesis by simp
  qed
qed

lemma binary32_milli:
  assumes "0 \<le> d" and "d \<le> 1 - 1 / 2 ^ 24"
  shows "0 \<le> binary32 (d * 1000) \<and> binary32 (d * 1000) < 1000"
proof -
  define p where "p = d * 1000"
  have p0: "0 \<le> p" using assms(1) by (simp add: p_def)
  have p1: "p \<le> 1000 - 1000 / 2 ^ 24" using assms(2) by (simp add: p_def)
  have "binary32 p < 1000"
  proof (cases "p < 512")
    case True
    then have "p < 2 powi 9" by simp
    with p0 have "binary32 p \<le> 2 powi 9" by (rule binary32_le_pow2) simp
    then show ?thesis by simp
  next
    case False
    have "ulp_exp p = - 14"
      using False p0 p1 by (intro ulp_exp_eq) simp_all
    then have e: "binary32 p = real_of_int (rne (p * 16384)) / 16384"
      by (simp add: binary32_def)
    have "p * 16384 < real_of_int 16383999 + 1 / 2" using p1 by simp
    then have "rne (p * 16384) \<le> 16383999" by (rule rne_le)
    then have "real_of_int (rne (p * 16384)) \<le> 16383999" by linarith
    then show ?thesis unfolding e by simp
  qed
  moreover have "0 \<le> binary32 p" using p0 by (rule binary32_nonneg)
  ultimately show ?thesis by (simp add: p_def)
qed

lemma binary32_at:
  assumes "- 149 \<le> k" and "k \<le> 105"
    and "k = - 149 \<or> 2 powi (k + 23) \<le> \<bar>x\<bar>" and "\<bar>x\<bar> < 2 powi (k + 24)"
  shows "binary32 x = real_of_int (rne (x / 2 powi k)) * 2 powi k"
  using ulp_exp_eq [OF assms] by (simp add: binary32_def)

text \<open>
  Rounding does not cross an integer below \<open>2 ^ 24\<close>: the truncation of a rounded
  product is the truncation of the exact product, or one more.
\<close>

lemma int_on_grid:
  assumes "\<bar>x\<bar> < 2 powi 24"
  shows "\<exists>m. real_of_int n = real_of_int m * 2 powi ulp_exp x"
proof -
  have "ulp_exp x \<le> 0" using assms by (intro ulp_exp_least) simp_all
  then have "0 \<le> - ulp_exp x" by simp
  then have "(2::real) powi (- ulp_exp x) = real_of_int (2 ^ nat (- ulp_exp x))"
    by (rule pow2_nat)
  moreover have "(2::real) powi (- ulp_exp x) * 2 powi ulp_exp x = 1"
    by (simp add: power_int_minus)
  ultimately have "real_of_int n = real_of_int (n * 2 ^ nat (- ulp_exp x)) * 2 powi ulp_exp x"
    by simp
  then show ?thesis by blast
qed

lemma binary32_int_ge:
  assumes "\<bar>x\<bar> < 2 powi 24" and "real_of_int n \<le> x"
  shows "real_of_int n \<le> binary32 x"
proof -
  obtain m where m: "real_of_int n = real_of_int m * 2 powi ulp_exp x"
    using int_on_grid [OF assms(1)] by blast
  show ?thesis using assms(2) unfolding m by (rule binary32_grid_ge)
qed

lemma binary32_int_le:
  assumes "\<bar>x\<bar> < 2 powi 24" and "x \<le> real_of_int n"
  shows "binary32 x \<le> real_of_int n"
proof -
  obtain m where m: "real_of_int n = real_of_int m * 2 powi ulp_exp x"
    using int_on_grid [OF assms(1)] by blast
  show ?thesis using assms(2) unfolding m by (rule binary32_grid_le)
qed

lemma floor_binary32_milli:
  "\<lfloor>frac v * 1000\<rfloor> \<le> \<lfloor>binary32 (frac v * 1000)\<rfloor> \<and>
   \<lfloor>binary32 (frac v * 1000)\<rfloor> \<le> \<lfloor>frac v * 1000\<rfloor> + 1"
proof -
  define p where "p = frac v * 1000"
  have "0 \<le> frac v" "frac v < 1" by (simp_all add: frac_lt_1)
  then have "0 \<le> p" "p < 1000" by (simp_all add: p_def)
  then have a: "\<bar>p\<bar> < 2 powi 24" by simp
  have "real_of_int \<lfloor>p\<rfloor> \<le> p" by simp
  with a have "real_of_int \<lfloor>p\<rfloor> \<le> binary32 p" by (rule binary32_int_ge)
  then have 1: "\<lfloor>p\<rfloor> \<le> \<lfloor>binary32 p\<rfloor>" by (simp add: le_floor_iff)
  have "p \<le> real_of_int (\<lfloor>p\<rfloor> + 1)" by linarith
  with a have "binary32 p \<le> real_of_int (\<lfloor>p\<rfloor> + 1)" by (rule binary32_int_le)
  then have 2: "\<lfloor>binary32 p\<rfloor> \<le> \<lfloor>p\<rfloor> + 1" by (simp add: floor_le_iff)
  show ?thesis using 1 2 unfolding p_def by simp
qed

subsection \<open>\<^verbatim>\<open>print_volt\<close> on single-precision voltages\<close>

lemma volt_number_binary32:
  assumes b: "binary32 v = v" and "0 \<le> v" and "v < 32768"
  shows "volt_number v = Some (format_float v)"
proof -
  let ?p = "binary32 (frac v * 1000)"
  let ?d = "\<lfloor>?p\<rfloor>"
  have i: "int_of_float v = Some \<lfloor>v\<rfloor>" using assms(2,3) by (rule int_of_float_floor)
  have f: "v - real_of_int \<lfloor>v\<rfloor> = frac v" by (simp add: frac_def)
  have fb: "binary32 (frac v) = frac v" and f1: "frac v \<le> 1 - 1 / 2 ^ 24"
    using frac_binary32 [OF assms] by simp_all
  have "0 \<le> frac v" by simp
  from binary32_milli [OF this f1] have p0: "0 \<le> ?p" and p1: "?p < 1000" by simp_all
  have d0: "0 \<le> ?d" using p0 by simp
  have d1: "?d < 1000" using p1 by (simp add: floor_less_iff)
  have "?p < 32768" using p1 by simp
  with p0 have d: "int_of_float ?p = Some ?d" by (rule int_of_float_floor)
  have iu: "fmt_u \<lfloor>v\<rfloor> = Some (decimal (nat \<lfloor>v\<rfloor>))" using assms(2) by (simp add: fmt_u_def)
  have du: "fmt_u ?d = Some (decimal (nat ?d))" using d0 by (simp add: fmt_u_def)
  have n: "volt_number v =
    Some (if ?d < 10 then decimal (nat \<lfloor>v\<rfloor>) @ ''.00'' @ decimal (nat ?d) @ '' V''
          else if ?d < 100 then decimal (nat \<lfloor>v\<rfloor>) @ ''.0'' @ decimal (nat ?d) @ '' V''
          else decimal (nat \<lfloor>v\<rfloor>) @ ''.'' @ decimal (nat ?d) @ '' V'')"
    unfolding volt_number_def b by (simp only: Let_def i option.case f fb d iu du prod.case)
  consider "?d < 10" | "10 \<le> ?d" "?d < 100" | "100 \<le> ?d"
    by linarith
  then show ?thesis
  proof cases
    case 1
    then have "nat ?d < 10" using d0 by linarith
    then have "''.00'' @ decimal (nat ?d) = ''.'' @ digits3 (nat ?d)" by (rule point_digits_1)
    then show ?thesis using 1 unfolding n format_float_def by simp
  next
    case 2
    then have "10 \<le> nat ?d" "nat ?d < 100" by linarith+
    then have "''.0'' @ decimal (nat ?d) = ''.'' @ digits3 (nat ?d)" by (rule point_digits_2)
    then show ?thesis using 2 unfolding n format_float_def by simp
  next
    case 3
    then have "100 \<le> nat ?d" "nat ?d < 1000" using d1 by linarith+
    then have "''.'' @ decimal (nat ?d) = ''.'' @ digits3 (nat ?d)" by (rule point_digits_3)
    then show ?thesis using 3 unfolding n format_float_def by simp
  qed
qed

lemma digits3_not_nul: "n < 1000 \<Longrightarrow> CHR 0x00 \<notin> set (digits3 n)"
proof -
  assume "n < 1000"
  then have "n div 100 < 10" by simp
  moreover have "n div 10 mod 10 < 10" and "n mod 10 < 10" by simp_all
  ultimately show ?thesis
    using digit_char_not_nul [of "n div 100"] digit_char_not_nul [of "n div 10 mod 10"]
      digit_char_not_nul [of "n mod 10"]
    by (simp add: digits3_def)
qed

lemma format_float_not_nul:
  assumes "binary32 v = v" and "0 \<le> v" and "v < 32768"
  shows "CHR 0x00 \<notin> set (format_float v)"
proof -
  have "0 \<le> frac v" by simp
  moreover have "frac v \<le> 1 - 1 / 2 ^ 24" using frac_binary32 [OF assms] by simp
  ultimately have "binary32 (frac v * 1000) < 1000" using binary32_milli by blast
  then have "\<lfloor>binary32 (frac v * 1000)\<rfloor> < 1000" by (simp add: floor_less_iff)
  then have "nat \<lfloor>binary32 (frac v * 1000)\<rfloor> < 1000" by linarith
  then have "CHR 0x00 \<notin> set (digits3 (nat \<lfloor>binary32 (frac v * 1000)\<rfloor>))"
    by (rule digits3_not_nul)
  then show ?thesis
    using decimal_not_nul by (simp add: format_float_def)
qed

lemma print_volt_binary32:
  "binary32 v = v \<Longrightarrow> 0 \<le> v \<Longrightarrow> v < 32768 \<Longrightarrow>
   print_volt v = Some (map Lcd_data (format_float v))"
  by (simp add: print_volt_def volt_number_binary32 lcd_str_map format_float_not_nul)

lemma volt_number_rounds_argument:
  "0 \<le> x \<Longrightarrow> x < 2 powi 129 \<Longrightarrow> volt_number (binary32 x) = volt_number x"
  by (simp add: volt_number_def binary32_idem)

lemma print_volt_small:
  assumes "0 \<le> x" and "x < 64"
  shows "print_volt x = Some (map Lcd_data (format_float (binary32 x)))"
proof -
  have x: "x < 2 powi 129" "x < 2 powi 6" using assms(2) by simp_all
  have i: "binary32 (binary32 x) = binary32 x" using assms(1) x(1) by (rule binary32_idem)
  have "binary32 x \<le> 2 powi 6" using assms(1) x(2) by (rule binary32_le_pow2) simp
  then have lt: "binary32 x < 32768" by simp
  have "0 \<le> binary32 x" using assms(1) by (rule binary32_nonneg)
  from print_volt_binary32 [OF i this lt]
  show ?thesis
    using volt_number_rounds_argument [OF assms(1) x(1)] by (simp add: print_volt_def)
qed

subsection \<open>One iteration of the loop\<close>

lemma peak_of_reconstruct: "peak_of n = reconstruct (real_of_int n) peakProfile"
  by (simp add: peak_of_def reconstruct_def peakProfile_def)

lemma bias_of_reconstruct: "bias_of n = reconstruct (real_of_int n) biasProfile"
  by (simp add: bias_of_def reconstruct_def biasProfile_def)

lemma peak_of_mono: "m \<le> n \<Longrightarrow> peak_of m \<le> peak_of n"
  by (simp add: peak_of_def)

lemma bias_of_mono: "m \<le> n \<Longrightarrow> bias_of m \<le> bias_of n"
  by (simp add: bias_of_def)

lemma peak_of_range: "0 \<le> n \<Longrightarrow> n \<le> 1023 \<Longrightarrow> 0 \<le> peak_of n \<and> peak_of n < 64"
proof -
  assume a: "0 \<le> n" and b: "n \<le> 1023"
  have "peak_of 0 \<le> peak_of n" using a by (rule peak_of_mono)
  moreover have "peak_of n \<le> peak_of 1023" using b by (rule peak_of_mono)
  moreover have "peak_of 0 = 0" and "peak_of 1023 < 64" by (simp_all add: peak_of_def)
  ultimately show ?thesis by linarith
qed

lemma bias_of_range: "0 \<le> n \<Longrightarrow> n \<le> 1023 \<Longrightarrow> 0 \<le> bias_of n \<and> bias_of n < 64"
proof -
  assume a: "0 \<le> n" and b: "n \<le> 1023"
  have "bias_of 0 \<le> bias_of n" using a by (rule bias_of_mono)
  moreover have "bias_of n \<le> bias_of 1023" using b by (rule bias_of_mono)
  moreover have "bias_of 0 = 0" and "bias_of 1023 < 64" by (simp_all add: bias_of_def)
  ultimately show ?thesis by linarith
qed

lemma peak_sample_range: "0 \<le> peak_sample e \<and> peak_sample e \<le> 1023"
  unfolding peak_sample_def sint_read_adc by (rule uint_adc_range)

lemma bias_sample_range: "0 \<le> bias_sample e \<and> bias_sample e \<le> 1023"
  unfolding bias_sample_def sint_read_adc by (rule uint_adc_range)

lemma print_volt_peak_of:
  "0 \<le> n \<Longrightarrow> n \<le> 1023 \<Longrightarrow> print_volt (peak_of n) = Some (map Lcd_data (format_float (binary32 (peak_of n))))"
  using peak_of_range [of n] by (simp add: print_volt_small)

lemma print_volt_bias_of:
  "0 \<le> n \<Longrightarrow> n \<le> 1023 \<Longrightarrow> print_volt (bias_of n) = Some (map Lcd_data (format_float (binary32 (bias_of n))))"
  using bias_of_range [of n] by (simp add: print_volt_small)

lemma buttons_start:
  "start_pushed e \<Longrightarrow>
   buttons e v =
     Some (v\<lparr>state := 1, peakVoltage := 0\<rparr>,
           adc_initBG @ lcd_init @ print_APEL @ lcd_str ''. Scan'' @ lcd_cmd 0xC3 @
           lcd_str ''Running...'')"
  by (simp add: buttons_def start_pushed_def)

lemma buttons_stop:
  "\<not> start_pushed e \<Longrightarrow> stop_pushed e \<Longrightarrow> 0 \<le> peakVoltage v \<Longrightarrow> peakVoltage v \<le> 1023 \<Longrightarrow>
   buttons e v =
     Some (v\<lparr>state := 2, peak := peak_of (peakVoltage v)\<rparr>,
           lcd_init @ lcd_cmd 0x82 @ lcd_str ''Peak Voltage'' @ lcd_cmd 0xC0 @
           map Lcd_data (format_float (binary32 (peak_of (peakVoltage v)))))"
  by (simp add: buttons_def start_pushed_def stop_pushed_def print_volt_peak_of)

lemma buttons_readBias:
  "\<not> start_pushed e \<Longrightarrow> \<not> stop_pushed e \<Longrightarrow> readBias_pushed e \<Longrightarrow>
   buttons e v =
     Some (v\<lparr>state := 3\<rparr>,
           adc_init @ lcd_init @ lcd_cmd 0x83 @ lcd_str ''SiPM Bias'' @ lcd_cmd 0xC2)"
  by (simp add: buttons_def start_pushed_def stop_pushed_def readBias_pushed_def)

lemma buttons_none:
  "\<not> start_pushed e \<Longrightarrow> \<not> stop_pushed e \<Longrightarrow> \<not> readBias_pushed e \<Longrightarrow> buttons e v = Some (v, [])"
  by (simp add: buttons_def start_pushed_def stop_pushed_def readBias_pushed_def)

lemma switch_state_1:
  "state v = 1 \<Longrightarrow>
   switch_state e v =
     Some (v\<lparr>Vread := peak_sample e, peakVoltage := max (peakVoltage v) (peak_sample e)\<rparr>,
           [Adc_read 7])"
  by (simp add: switch_state_def peak_sample_def max_def Let_def)

lemma switch_state_3:
  "state v = 3 \<Longrightarrow>
   switch_state e v =
     Some (v\<lparr>Vread := bias_sample e, bias := bias_of (bias_sample e)\<rparr>,
           [Adc_read 1] @ lcd_cmd 0xC0 @ map Lcd_data (format_float (binary32 (bias_of (bias_sample e)))))"
  using bias_sample_range [of e]
  by (simp add: switch_state_def bias_sample_def [symmetric] print_volt_bias_of Let_def)

lemma switch_state_other:
  "state v \<noteq> 1 \<Longrightarrow> state v \<noteq> 3 \<Longrightarrow> switch_state e v = Some (v, [])"
  by (simp add: switch_state_def)

lemma loop_body_start:
  "start_pushed e \<Longrightarrow>
   loop_body e v =
     Some (v\<lparr>state := 1, peakVoltage := peak_sample e, Vread := peak_sample e\<rparr>,
           adc_initBG @ lcd_init @ print_APEL @ lcd_str ''. Scan'' @ lcd_cmd 0xC3 @
           lcd_str ''Running...'' @ [Adc_read 7])"
  using peak_sample_range [of e]
  by (simp add: loop_body_def buttons_start switch_state_1 max_def)

lemma loop_body_stop:
  "\<not> start_pushed e \<Longrightarrow> stop_pushed e \<Longrightarrow> 0 \<le> peakVoltage v \<Longrightarrow> peakVoltage v \<le> 1023 \<Longrightarrow>
   loop_body e v =
     Some (v\<lparr>state := 2, peak := peak_of (peakVoltage v)\<rparr>,
           lcd_init @ lcd_cmd 0x82 @ lcd_str ''Peak Voltage'' @ lcd_cmd 0xC0 @
           map Lcd_data (format_float (binary32 (peak_of (peakVoltage v)))))"
  by (simp add: loop_body_def buttons_stop switch_state_other)

lemma loop_body_readBias:
  "\<not> start_pushed e \<Longrightarrow> \<not> stop_pushed e \<Longrightarrow> readBias_pushed e \<Longrightarrow>
   loop_body e v =
     Some (v\<lparr>state := 3, Vread := bias_sample e, bias := bias_of (bias_sample e)\<rparr>,
           adc_init @ lcd_init @ lcd_cmd 0x83 @ lcd_str ''SiPM Bias'' @ lcd_cmd 0xC2 @
           [Adc_read 1] @ lcd_cmd 0xC0 @ map Lcd_data (format_float (binary32 (bias_of (bias_sample e)))))"
  by (simp add: loop_body_def buttons_readBias switch_state_3)

lemma loop_body_idle_1:
  "no_button e \<Longrightarrow> state v = 1 \<Longrightarrow>
   loop_body e v =
     Some (v\<lparr>Vread := peak_sample e, peakVoltage := max (peakVoltage v) (peak_sample e)\<rparr>,
           [Adc_read 7])"
  by (simp add: loop_body_def no_button_def buttons_none switch_state_1)

lemma loop_body_idle_3:
  "no_button e \<Longrightarrow> state v = 3 \<Longrightarrow>
   loop_body e v =
     Some (v\<lparr>Vread := bias_sample e, bias := bias_of (bias_sample e)\<rparr>,
           [Adc_read 1] @ lcd_cmd 0xC0 @ map Lcd_data (format_float (binary32 (bias_of (bias_sample e)))))"
  by (simp add: loop_body_def no_button_def buttons_none switch_state_3)

lemma loop_body_idle_other:
  "no_button e \<Longrightarrow> state v \<noteq> 1 \<Longrightarrow> state v \<noteq> 3 \<Longrightarrow> loop_body e v = Some (v, [])"
  by (simp add: loop_body_def no_button_def buttons_none switch_state_other)

lemma loop_body_ok:
  assumes "vars_ok v"
  shows "\<exists>v' out. loop_body e v = Some (v', out) \<and> vars_ok v'"
proof -
  have p: "0 \<le> peakVoltage v" "peakVoltage v \<le> 1023" using assms by (simp_all add: vars_ok_def)
  note s = peak_sample_range [of e]
  consider "start_pushed e" | "\<not> start_pushed e" "stop_pushed e"
    | "\<not> start_pushed e" "\<not> stop_pushed e" "readBias_pushed e" | "no_button e"
    unfolding no_button_def by blast
  then show ?thesis
  proof cases
    case 1
    then show ?thesis using s by (simp add: loop_body_start vars_ok_def)
  next
    case 2
    then show ?thesis using p by (simp add: loop_body_stop vars_ok_def)
  next
    case 3
    then show ?thesis using p by (simp add: loop_body_readBias vars_ok_def)
  next
    case 4
    consider "state v = 1" | "state v = 3" | "state v \<noteq> 1" "state v \<noteq> 3" by blast
    then show ?thesis
    proof cases
      case 1
      then show ?thesis using 4 p s by (simp add: loop_body_idle_1 vars_ok_def max_def)
    next
      case 2
      then show ?thesis using 4 p assms by (simp add: loop_body_idle_3 vars_ok_def)
    next
      case 3
      then show ?thesis using 4 assms by (simp add: loop_body_idle_other)
    qed
  qed
qed

lemma main_loop_ok:
  "vars_ok (fst s) \<Longrightarrow> \<exists>v' out. main_loop es s = Some (v', out) \<and> vars_ok v'"
proof (induction es arbitrary: s)
  case Nil
  then show ?case by (cases s) simp
next
  case (Cons e es)
  obtain v1 out1 where l: "loop_body e (fst s) = Some (v1, out1)" and k: "vars_ok v1"
    using loop_body_ok [OF Cons.prems] by blast
  have "vars_ok (fst (v1, snd s @ out1))" using k by simp
  from Cons.IH [OF this] show ?case using l by simp
qed

lemma switch_state_ADC: "ADC e' = ADC e \<Longrightarrow> switch_state e' v = switch_state e v"
  by (simp add: switch_state_def read_adc_def)

lemma loop_body_same_buttons:
  assumes "buttons e' v = buttons e v" and "ADC e' = ADC e"
  shows "loop_body e' v = loop_body e v"
  unfolding loop_body_def assms(1)
  by (simp add: switch_state_ADC [OF assms(2)] split: option.split)

subsection \<open>Runs of the loop\<close>

lemma main_loop_append:
  "main_loop (xs @ ys) s = (case main_loop xs s of None \<Rightarrow> None | Some s' \<Rightarrow> main_loop ys s')"
  by (induction xs arbitrary: s) (simp_all split: option.split)

lemma running_peak_range:
  "0 \<le> p \<Longrightarrow> p \<le> 1023 \<Longrightarrow> 0 \<le> running_peak p es \<and> running_peak p es \<le> 1023"
proof (induction es arbitrary: p)
  case Nil
  then show ?case by (simp add: running_peak_def)
next
  case (Cons e es)
  have "0 \<le> max p (peak_sample e)" "max p (peak_sample e) \<le> 1023"
    using Cons.prems peak_sample_range [of e] by simp_all
  from Cons.IH [OF this] show ?case by (simp add: running_peak_def)
qed

lemma main_loop_acquiring:
  "list_all no_button es \<Longrightarrow> state v = 1 \<Longrightarrow>
   \<exists>r out'. main_loop es (v, out) =
     Some (v\<lparr>Vread := r, peakVoltage := running_peak (peakVoltage v) es\<rparr>, out')"
proof (induction es arbitrary: v out)
  case Nil
  have "v = v\<lparr>Vread := Vread v, peakVoltage := peakVoltage v\<rparr>" by simp
  then show ?case unfolding running_peak_def foldl.simps main_loop.simps by blast
next
  case (Cons e es)
  let ?v1 = "v\<lparr>Vread := peak_sample e, peakVoltage := max (peakVoltage v) (peak_sample e)\<rparr>"
  have e: "no_button e" and es: "list_all no_button es" using Cons.prems(1) by simp_all
  have l: "loop_body e v = Some (?v1, [Adc_read 7])"
    using e Cons.prems(2) by (rule loop_body_idle_1)
  have "state ?v1 = 1" using Cons.prems(2) by simp
  from Cons.IH [OF es this, of "out @ [Adc_read 7]"]
  obtain r out' where
    "main_loop es (?v1, out @ [Adc_read 7]) =
       Some (?v1\<lparr>Vread := r, peakVoltage := running_peak (peakVoltage ?v1) es\<rparr>, out')"
    by blast
  then have "main_loop (e # es) (v, out) =
       Some (v\<lparr>Vread := r, peakVoltage := running_peak (peakVoltage v) (e # es)\<rparr>, out')"
    using l by (simp add: running_peak_def)
  then show ?case by blast
qed

lemma main_loop_start_acquiring:
  assumes "start_pushed e" and "list_all no_button es"
  shows "\<exists>r out'. main_loop (e # es) (v, out) =
     Some (v\<lparr>state := 1, Vread := r, peakVoltage := running_peak 0 (e # es)\<rparr>, out')"
proof -
  let ?v1 = "v\<lparr>state := 1, peakVoltage := peak_sample e, Vread := peak_sample e\<rparr>"
  obtain out1 where l: "loop_body e v = Some (?v1, out1)"
    using loop_body_start [OF assms(1)] by blast
  have "state ?v1 = 1" by simp
  from main_loop_acquiring [OF assms(2) this, of "out @ out1"]
  obtain r out' where
    "main_loop es (?v1, out @ out1) =
       Some (?v1\<lparr>Vread := r, peakVoltage := running_peak (peakVoltage ?v1) es\<rparr>, out')"
    by blast
  moreover have "max 0 (peak_sample e) = peak_sample e"
    using peak_sample_range [of e] by simp
  ultimately have "main_loop (e # es) (v, out) =
     Some (v\<lparr>state := 1, Vread := r, peakVoltage := running_peak 0 (e # es)\<rparr>, out')"
    using l by (simp add: running_peak_def)
  then show ?thesis by blast
qed

lemma main_loop_start_acquiring_stop:
  assumes "start_pushed e" and "list_all no_button es"
    and "\<not> start_pushed e'" and "stop_pushed e'"
  shows "\<exists>r pre. main_loop (e # es @ [e']) (v, out) =
     Some (v\<lparr>state := 2, Vread := r, peakVoltage := running_peak 0 (e # es),
             peak := peak_of (running_peak 0 (e # es))\<rparr>,
           pre @ lcd_cmd 0xC0 @ map Lcd_data (format_float (binary32 (peak_of (running_peak 0 (e # es))))))"
proof -
  let ?p = "running_peak 0 (e # es)"
  obtain r out1 where
    a: "main_loop (e # es) (v, out) = Some (v\<lparr>state := 1, Vread := r, peakVoltage := ?p\<rparr>, out1)"
    using main_loop_start_acquiring [OF assms(1,2)] by blast
  let ?v1 = "v\<lparr>state := 1, Vread := r, peakVoltage := ?p\<rparr>"
  have p: "0 \<le> ?p" "?p \<le> 1023" using running_peak_range [of 0 "e # es"] by simp_all
  then have "0 \<le> peakVoltage ?v1" "peakVoltage ?v1 \<le> 1023" by simp_all
  from loop_body_stop [OF assms(3,4) this]
  have b: "loop_body e' ?v1 =
      Some (?v1\<lparr>state := 2, peak := peak_of ?p\<rparr>,
            lcd_init @ lcd_cmd 0x82 @ lcd_str ''Peak Voltage'' @ lcd_cmd 0xC0 @
            map Lcd_data (format_float (binary32 (peak_of ?p))))"
    by simp
  have "main_loop ((e # es) @ [e']) (v, out) =
      Some (v\<lparr>state := 2, Vread := r, peakVoltage := ?p, peak := peak_of ?p\<rparr>,
            (out1 @ lcd_init @ lcd_cmd 0x82 @ lcd_str ''Peak Voltage'') @ lcd_cmd 0xC0 @
            map Lcd_data (format_float (binary32 (peak_of ?p))))"
    unfolding main_loop_append a using b by simp
  then show ?thesis by (metis append_Cons)
qed

lemma format_volt_peak_450: "format_volt (peak_of 450) = ''2.841 V''"
  by (simp add: format_volt_def peak_of_def digits3_def digit_char_def frac_def)

lemma format_volt_peak_0: "format_volt (peak_of 0) = ''0.000 V''"
  by (simp add: format_volt_def peak_of_def digits3_def digit_char_def frac_def)

lemma binary32_peak_450: "binary32 (peak_of 450) = 11916461 / 4194304"
  by (subst binary32_at [where k = "- 22"]) (simp_all add: peak_of_def rne_def)

lemma binary32_milli_841: "binary32 (3527853 / 4194304 * 1000) = 3445169 / 4096"
  by (subst binary32_at [where k = "- 14"]) (simp_all add: rne_def)

lemma format_float_peak_450: "format_float (binary32 (peak_of 450)) = ''2.841 V''"
proof -
  have fr: "frac (11916461 / 4194304 :: real) = 3527853 / 4194304" by (simp add: frac_def)
  show ?thesis
    unfolding binary32_peak_450 format_float_def fr binary32_milli_841
    by (simp add: digits3_def digit_char_def)
qed

lemma format_float_peak_0: "format_float (binary32 (peak_of 0)) = ''0.000 V''"
  by (simp add: peak_of_def format_float_def digits3_def digit_char_def)

lemma main_start_acquiring_stop:
  assumes "start_pushed e" and "list_all no_button es"
    and "\<not> start_pushed e'" and "stop_pushed e'"
  shows "\<exists>r pre. main b (e # es @ [e']) =
     Some (\<lparr>peakVoltage = running_peak 0 (e # es), Vread = r, bias = b,
             peak = reconstruct (real_of_int (running_peak 0 (e # es))) peakProfile, state = 2\<rparr>,
           pre @ lcd_cmd 0xC0 @
           map Lcd_data (format_float (binary32 (reconstruct (real_of_int (running_peak 0 (e # es))) peakProfile))))"
  using main_loop_start_acquiring_stop [OF assms, of "power_up b" startup]
  by (simp add: main_def power_up_def peak_of_reconstruct)

lemma main_loop_idle:
  "list_all no_button es \<Longrightarrow> state v = 0 \<Longrightarrow> main_loop es (v, out) = Some (v, out)"
  by (induction es) (simp_all add: loop_body_idle_other)

lemma loop_body_no_start_keeps_peak:
  assumes "\<not> start_pushed e" and "vars_ok v"
  shows "\<exists>v' out. loop_body e v = Some (v', out) \<and> peakVoltage v \<le> peakVoltage v'"
proof -
  have p: "0 \<le> peakVoltage v" "peakVoltage v \<le> 1023" using assms(2) by (simp_all add: vars_ok_def)
  consider "stop_pushed e" | "\<not> stop_pushed e" "readBias_pushed e" | "no_button e"
    using assms(1) unfolding no_button_def by blast
  then show ?thesis
  proof cases
    case 1
    then show ?thesis using assms(1) p by (simp add: loop_body_stop)
  next
    case 2
    then show ?thesis using assms(1) by (simp add: loop_body_readBias)
  next
    case 3
    consider "state v = 1" | "state v = 3" | "state v \<noteq> 1" "state v \<noteq> 3" by blast
    then show ?thesis
    proof cases
      case 1
      then show ?thesis using 3 by (simp add: loop_body_idle_1)
    next
      case 2
      then show ?thesis using 3 by (simp add: loop_body_idle_3)
    next
      case 3
      then show ?thesis using \<open>no_button e\<close> by (simp add: loop_body_idle_other)
    qed
  qed
qed

lemma loop_body_leaves_idle:
  assumes "vars_ok v" and "state v \<noteq> 0 \<or> \<not> no_button e"
  shows "\<exists>v' out. loop_body e v = Some (v', out) \<and> vars_ok v' \<and> state v' \<noteq> 0"
proof -
  have p: "0 \<le> peakVoltage v" "peakVoltage v \<le> 1023" using assms(1) by (simp_all add: vars_ok_def)
  note s = peak_sample_range [of e]
  consider "start_pushed e" | "\<not> start_pushed e" "stop_pushed e"
    | "\<not> start_pushed e" "\<not> stop_pushed e" "readBias_pushed e" | "no_button e"
    unfolding no_button_def by blast
  then show ?thesis
  proof cases
    case 1
    then show ?thesis using s by (simp add: loop_body_start vars_ok_def)
  next
    case 2
    then show ?thesis using p by (simp add: loop_body_stop vars_ok_def)
  next
    case 3
    then show ?thesis using p by (simp add: loop_body_readBias vars_ok_def)
  next
    case 4
    then have n: "state v \<noteq> 0" using assms(2) by blast
    consider "state v = 1" | "state v = 3" | "state v \<noteq> 1" "state v \<noteq> 3" by blast
    then show ?thesis
    proof cases
      case 1
      then show ?thesis using 4 p s by (simp add: loop_body_idle_1 vars_ok_def max_def)
    next
      case 2
      then show ?thesis using 4 p by (simp add: loop_body_idle_3 vars_ok_def)
    next
      case 3
      then show ?thesis using 4 n assms(1) by (simp add: loop_body_idle_other)
    qed
  qed
qed

lemma main_loop_stays_out_of_idle:
  "vars_ok (fst s) \<Longrightarrow> state (fst s) \<noteq> 0 \<Longrightarrow>
   \<exists>v' out. main_loop es s = Some (v', out) \<and> vars_ok v' \<and> state v' \<noteq> 0"
proof (induction es arbitrary: s)
  case Nil
  then show ?case by (cases s) simp
next
  case (Cons e es)
  obtain v1 out1 where l: "loop_body e (fst s) = Some (v1, out1)"
    and k: "vars_ok v1" "state v1 \<noteq> 0"
    using loop_body_leaves_idle [of "fst s" e] Cons.prems by blast
  have "vars_ok (fst (v1, snd s @ out1))" "state (fst (v1, snd s @ out1)) \<noteq> 0"
    using k by simp_all
  from Cons.IH [OF this] show ?case using l by simp
qed

lemma vars_ok_power_up: "vars_ok (power_up b)"
  by (simp add: vars_ok_def power_up_def)

lemma vars_ok_states: "vars_ok v \<Longrightarrow> state v \<noteq> 0 \<Longrightarrow> state v = 1 \<or> state v = 2 \<or> state v = 3"
  by (auto simp: vars_ok_def)

lemma main_after_button:
  assumes "\<not> no_button e"
  shows "\<exists>v' out. main b (es1 @ e # es2) = Some (v', out) \<and> vars_ok v' \<and> state v' \<noteq> 0"
proof -
  obtain v1 out1 where a: "main_loop es1 (power_up b, startup) = Some (v1, out1)" and k: "vars_ok v1"
    using main_loop_ok [of "(power_up b, startup)" es1] vars_ok_power_up by auto
  obtain v2 out2 where l: "loop_body e v1 = Some (v2, out2)" and k2: "vars_ok v2" "state v2 \<noteq> 0"
    using loop_body_leaves_idle [OF k, of e] assms by blast
  have "vars_ok (fst (v2, out1 @ out2))" "state (fst (v2, out1 @ out2)) \<noteq> 0"
    using k2 by simp_all
  from main_loop_stays_out_of_idle [OF this, of es2]
  obtain v' out where "main_loop es2 (v2, out1 @ out2) = Some (v', out)" "vars_ok v'" "state v' \<noteq> 0"
    by blast
  then show ?thesis
    using a l by (simp add: main_def main_loop_append)
qed

text \<open>
  A run with five samples in all: the iteration with START active reads the first, 100,
  and four iterations with no button active read 300, 200, 450 and 450.
\<close>

lemma five_samples_in_all:
  assumes "start_pushed e0" and "peak_sample e0 = 100"
    and "no_button e1" and "peak_sample e1 = 300"
    and "no_button e2" and "peak_sample e2 = 200"
    and "no_button e3" and "peak_sample e3 = 450"
    and "no_button e4" and "peak_sample e4 = 450"
    and "\<not> start_pushed e5" and "stop_pushed e5"
  shows "\<exists>r pre. main b [e0, e1, e2, e3, e4, e5] =
     Some (\<lparr>peakVoltage = 450, Vread = r, bias = b,
             peak = reconstruct 450 peakProfile, state = 2\<rparr>,
           pre @ lcd_cmd 0xC0 @ map Lcd_data ''2.841 V'')"
proof -
  have es: "list_all no_button [e1, e2, e3, e4]" using assms by simp
  have p: "running_peak 0 [e0, e1, e2, e3, e4] = 450"
    using assms by (simp add: running_peak_def)
  have "format_float (binary32 (reconstruct 450 peakProfile)) = ''2.841 V''"
    using format_float_peak_450 by (simp add: peak_of_reconstruct)
  then show ?thesis
    using main_start_acquiring_stop [OF assms(1) es assms(11,12), of b] unfolding p by auto
qed

section \<open>The claims\<close>

subsection \<open>Voltage reconstruction\<close>

text \<open>
  C1. For every raw sample and each of the two calibration profiles, the reconstructed
  voltage is \<open>sample * referenceVoltage * (dividerNumerator / dividerDenominator) /
  fullScaleCode\<close>. The peak-signal profile has reference 1.1, the resistances 495.2 and
  101.65 (ratio \<open>(495.2 + 101.65) / 101.65\<close>) and full scale 1023; the bias-signal profile
  has reference 5.0, ratio \<open>(498.1 + 101.8) / 101.8\<close> and full scale 1023.

  On the program: the STOP branch stores in \<^verbatim>\<open>peak\<close> the reconstruction of
  \<^verbatim>\<open>peakVoltage\<close> with the peak-signal profile, and an iteration in state 3 stores in
  \<^verbatim>\<open>bias\<close> the reconstruction of the sample it has read, with the bias-signal profile.
  The source's expressions and \<open>reconstruct\<close> at the two profiles apply the same
  operations to the same constants in the same order.
\<close>

theorem reconstruct_formula:
  "(0 \<le> peakVoltage v \<and> peakVoltage v \<le> 1023 \<and> \<not> start_pushed e \<and> stop_pushed e \<longrightarrow>
      (\<exists>out. loop_body e v =
         Some (v\<lparr>state := 2, peak := reconstruct (real_of_int (peakVoltage v)) peakProfile\<rparr>, out))) \<and>
   (state v = 3 \<and> no_button e \<longrightarrow>
      (\<exists>out. loop_body e v =
         Some (v\<lparr>Vread := bias_sample e,
                 bias := reconstruct (real_of_int (bias_sample e)) biasProfile\<rparr>, out))) \<and>
   peak_of n = reconstruct (real_of_int n) peakProfile \<and>
   bias_of n = reconstruct (real_of_int n) biasProfile \<and>
   reconstruct s peakProfile = s * 1.1 * ((495.2 + 101.65) / 101.65) / 1023 \<and>
   reconstruct s biasProfile = s * 5.0 * ((498.1 + 101.8) / 101.8) / 1023"
proof -
  have "\<exists>out. loop_body e v =
      Some (v\<lparr>state := 2, peak := reconstruct (real_of_int (peakVoltage v)) peakProfile\<rparr>, out)"
    if "0 \<le> peakVoltage v" "peakVoltage v \<le> 1023" "\<not> start_pushed e" "stop_pushed e"
    using that by (simp add: loop_body_stop peak_of_reconstruct)
  moreover have "\<exists>out. loop_body e v =
      Some (v\<lparr>Vread := bias_sample e,
              bias := reconstruct (real_of_int (bias_sample e)) biasProfile\<rparr>, out)"
    if "state v = 3" "no_button e"
    using that by (simp add: loop_body_idle_3 bias_of_reconstruct)
  moreover have "reconstruct s peakProfile = s * 1.1 * ((495.2 + 101.65) / 101.65) / 1023"
    by (simp add: reconstruct_def peakProfile_def)
  moreover have "reconstruct s biasProfile = s * 5.0 * ((498.1 + 101.8) / 101.8) / 1023"
    by (simp add: reconstruct_def biasProfile_def)
  ultimately show ?thesis
    using peak_of_reconstruct [of n] bias_of_reconstruct [of n] by blast
qed

theorem reconstruct_formula_witness:
  "(\<exists>out. loop_body \<lparr>PIND = 0x02, ADC = (\<lambda>c. 0)\<rparr>
             \<lparr>peakVoltage = 450, Vread = 450, bias = 0, peak = 0, state = 1\<rparr> =
      Some (\<lparr>peakVoltage = 450, Vread = 450, bias = 0,
              peak = reconstruct 450 peakProfile, state = 2\<rparr>, out)) \<and>
   (\<exists>out. loop_body \<lparr>PIND = 0x00, ADC = (\<lambda>c. 512)\<rparr>
             \<lparr>peakVoltage = 450, Vread = 450, bias = 0, peak = 0, state = 3\<rparr> =
      Some (\<lparr>peakVoltage = 450, Vread = 512, bias = reconstruct 512 biasProfile,
              peak = 0, state = 3\<rparr>, out))"
  using reconstruct_formula
    [of "\<lparr>peakVoltage = 450, Vread = 450, bias = 0, peak = 0, state = 1\<rparr>"
        "\<lparr>PIND = 0x02, ADC = (\<lambda>c. 0)\<rparr>" 0 0]
    reconstruct_formula
    [of "\<lparr>peakVoltage = 450, Vread = 450, bias = 0, peak = 0, state = 3\<rparr>"
        "\<lparr>PIND = 0x00, ADC = (\<lambda>c. 512)\<rparr>" 0 0]
  by (simp add: start_pushed_def stop_pushed_def readBias_pushed_def no_button_def
      bias_sample_def read_adc_def)

subsection \<open>The buttons\<close>

text \<open>
  C4. In every iteration the transition is decided by the fixed priority Start, then
  Stop, then Read-Bias, the first condition of the chain that holds: with START active
  the chain takes the START branch (state 1, peak reset, the running screen) whatever
  the other two buttons are; with START not active and STOP active it takes the STOP
  branch (state 2, the peak voltage stored) whatever READ BIAS is; READ BIAS decides
  only when the other two are not active (state 3). The whole iteration is then the one
  with only that button active. In particular, with Start and Stop both active
  (\<^verbatim>\<open>PIND = 0x03\<close>) the iteration is the one with Start alone (\<^verbatim>\<open>PIND = 0x01\<close>): it
  resets the peak, enters state 1 and takes a sample.
\<close>

theorem button_priority:
  "(start_pushed e \<longrightarrow>
      buttons e v =
        Some (v\<lparr>state := 1, peakVoltage := 0\<rparr>,
              adc_initBG @ lcd_init @ print_APEL @ lcd_str ''. Scan'' @ lcd_cmd 0xC3 @
              lcd_str ''Running...'') \<and>
      (\<exists>out. loop_body e v =
         Some (v\<lparr>state := 1, peakVoltage := peak_sample e, Vread := peak_sample e\<rparr>, out)) \<and>
      loop_body e v = loop_body (e\<lparr>PIND := 0x01\<rparr>) v) \<and>
   (\<not> start_pushed e \<and> stop_pushed e \<longrightarrow>
      (0 \<le> peakVoltage v \<and> peakVoltage v \<le> 1023 \<longrightarrow>
         (\<exists>shown. print_volt (peak_of (peakVoltage v)) = Some shown \<and>
            buttons e v =
              Some (v\<lparr>state := 2, peak := peak_of (peakVoltage v)\<rparr>,
                    lcd_init @ lcd_cmd 0x82 @ lcd_str ''Peak Voltage'' @ lcd_cmd 0xC0 @ shown) \<and>
            loop_body e v =
              Some (v\<lparr>state := 2, peak := peak_of (peakVoltage v)\<rparr>,
                    lcd_init @ lcd_cmd 0x82 @ lcd_str ''Peak Voltage'' @ lcd_cmd 0xC0 @ shown))) \<and>
      loop_body e v = loop_body (e\<lparr>PIND := 0x02\<rparr>) v) \<and>
   (\<not> start_pushed e \<and> \<not> stop_pushed e \<and> readBias_pushed e \<longrightarrow>
      buttons e v =
        Some (v\<lparr>state := 3\<rparr>,
              adc_init @ lcd_init @ lcd_cmd 0x83 @ lcd_str ''SiPM Bias'' @ lcd_cmd 0xC2) \<and>
      (\<exists>out. loop_body e v =
         Some (v\<lparr>state := 3, Vread := bias_sample e, bias := bias_of (bias_sample e)\<rparr>, out)) \<and>
      loop_body e v = loop_body (e\<lparr>PIND := 0x04\<rparr>) v) \<and>
   loop_body (e\<lparr>PIND := 0x03\<rparr>) v = loop_body (e\<lparr>PIND := 0x01\<rparr>) v \<and>
   (\<exists>out. loop_body (e\<lparr>PIND := 0x03\<rparr>) v =
      Some (v\<lparr>state := 1, peakVoltage := peak_sample e, Vread := peak_sample e\<rparr>, out))"
proof -
  have s1: "loop_body (e\<lparr>PIND := 0x01\<rparr>) v = loop_body e v" if "start_pushed e"
    using that by (intro loop_body_same_buttons) (simp_all add: buttons_def start_pushed_def)
  have s2: "loop_body (e\<lparr>PIND := 0x02\<rparr>) v = loop_body e v"
    if "\<not> start_pushed e" "stop_pushed e"
    using that
    by (intro loop_body_same_buttons) (simp_all add: buttons_def start_pushed_def stop_pushed_def)
  have s3: "loop_body (e\<lparr>PIND := 0x04\<rparr>) v = loop_body e v"
    if "\<not> start_pushed e" "\<not> stop_pushed e" "readBias_pushed e"
    using that
    by (intro loop_body_same_buttons)
      (simp_all add: buttons_def start_pushed_def stop_pushed_def readBias_pushed_def)
  have s4: "loop_body (e\<lparr>PIND := 0x03\<rparr>) v = loop_body (e\<lparr>PIND := 0x01\<rparr>) v"
    by (intro loop_body_same_buttons) (simp_all add: buttons_def)
  have "start_pushed (e\<lparr>PIND := 0x03\<rparr>)" by (simp add: start_pushed_def)
  from loop_body_start [OF this, of v]
  have s5: "\<exists>out. loop_body (e\<lparr>PIND := 0x03\<rparr>) v =
      Some (v\<lparr>state := 1, peakVoltage := peak_sample e, Vread := peak_sample e\<rparr>, out)"
    by (simp add: peak_sample_def read_adc_def)
  have stop: "\<exists>shown. print_volt (peak_of (peakVoltage v)) = Some shown \<and>
      buttons e v =
        Some (v\<lparr>state := 2, peak := peak_of (peakVoltage v)\<rparr>,
              lcd_init @ lcd_cmd 0x82 @ lcd_str ''Peak Voltage'' @ lcd_cmd 0xC0 @ shown) \<and>
      loop_body e v =
        Some (v\<lparr>state := 2, peak := peak_of (peakVoltage v)\<rparr>,
              lcd_init @ lcd_cmd 0x82 @ lcd_str ''Peak Voltage'' @ lcd_cmd 0xC0 @ shown)"
    if "\<not> start_pushed e" "stop_pushed e" "0 \<le> peakVoltage v" "peakVoltage v \<le> 1023"
    using that by (simp add: print_volt_peak_of buttons_stop loop_body_stop)
  show ?thesis
    using s1 s2 s3 s4 s5 stop
    by (simp add: buttons_start buttons_readBias loop_body_start loop_body_readBias)
qed

theorem button_priority_witness:
  "buttons \<lparr>PIND = 0x07, ADC = (\<lambda>c. 5)\<rparr> (power_up 0) =
     Some (power_up 0\<lparr>state := 1, peakVoltage := 0\<rparr>,
           adc_initBG @ lcd_init @ print_APEL @ lcd_str ''. Scan'' @ lcd_cmd 0xC3 @
           lcd_str ''Running...'') \<and>
   loop_body \<lparr>PIND = 0x07, ADC = (\<lambda>c. 5)\<rparr> (power_up 0) =
     loop_body \<lparr>PIND = 0x01, ADC = (\<lambda>c. 5)\<rparr> (power_up 0) \<and>
   (\<exists>shown. buttons \<lparr>PIND = 0x06, ADC = (\<lambda>c. 5)\<rparr> (power_up 0) =
      Some (power_up 0\<lparr>state := 2, peak := peak_of 0\<rparr>,
            lcd_init @ lcd_cmd 0x82 @ lcd_str ''Peak Voltage'' @ lcd_cmd 0xC0 @ shown)) \<and>
   loop_body \<lparr>PIND = 0x06, ADC = (\<lambda>c. 5)\<rparr> (power_up 0) =
     loop_body \<lparr>PIND = 0x02, ADC = (\<lambda>c. 5)\<rparr> (power_up 0) \<and>
   buttons \<lparr>PIND = 0x3C, ADC = (\<lambda>c. 5)\<rparr> (power_up 0) =
     Some (power_up 0\<lparr>state := 3\<rparr>,
           adc_init @ lcd_init @ lcd_cmd 0x83 @ lcd_str ''SiPM Bias'' @ lcd_cmd 0xC2) \<and>
   loop_body \<lparr>PIND = 0x3C, ADC = (\<lambda>c. 5)\<rparr> (power_up 0) =
     loop_body \<lparr>PIND = 0x04, ADC = (\<lambda>c. 5)\<rparr> (power_up 0)"
proof -
  have p: "peakVoltage (power_up 0) = 0" by (simp add: power_up_def)
  show ?thesis
    using button_priority [of "\<lparr>PIND = 0x07, ADC = (\<lambda>c. 5)\<rparr>" "power_up 0"]
      button_priority [of "\<lparr>PIND = 0x06, ADC = (\<lambda>c. 5)\<rparr>" "power_up 0"]
      button_priority [of "\<lparr>PIND = 0x3C, ADC = (\<lambda>c. 5)\<rparr>" "power_up 0"]
    by (simp add: start_pushed_def stop_pushed_def readBias_pushed_def p) blast
qed

text \<open>
  C7. An iteration in the read-bias mode leaves \<^verbatim>\<open>peakVoltage\<close> as it was: both the
  iteration in state 3 with no button active (sample the bias channel, reconstruct with
  the bias-signal profile, refresh the display) and the iteration that enters state 3
  by the READ BIAS button.
\<close>

theorem reading_bias_keeps_peak:
  "(state v = 3 \<and> no_button e \<longrightarrow>
      (\<exists>v' out. loop_body e v = Some (v', out) \<and> peakVoltage v' = peakVoltage v \<and>
         state v' = 3 \<and> bias v' = reconstruct (real_of_int (bias_sample e)) biasProfile)) \<and>
   (\<not> start_pushed e \<and> \<not> stop_pushed e \<and> readBias_pushed e \<longrightarrow>
      (\<exists>v' out. loop_body e v = Some (v', out) \<and> peakVoltage v' = peakVoltage v \<and>
         state v' = 3 \<and> bias v' = reconstruct (real_of_int (bias_sample e)) biasProfile))"
  by (simp add: loop_body_idle_3 loop_body_readBias bias_of_reconstruct)

theorem reading_bias_keeps_peak_witness:
  "(\<exists>v' out. loop_body \<lparr>PIND = 0x00, ADC = (\<lambda>c. 512)\<rparr>
       \<lparr>peakVoltage = 450, Vread = 450, bias = 0, peak = 0, state = 3\<rparr> = Some (v', out) \<and>
     peakVoltage v' = 450 \<and> state v' = 3) \<and>
   (\<exists>v' out. loop_body \<lparr>PIND = 0x04, ADC = (\<lambda>c. 512)\<rparr>
       \<lparr>peakVoltage = 450, Vread = 450, bias = 0, peak = 0, state = 2\<rparr> = Some (v', out) \<and>
     peakVoltage v' = 450 \<and> state v' = 3)"
  using reading_bias_keeps_peak
      [of "\<lparr>peakVoltage = 450, Vread = 450, bias = 0, peak = 0, state = 3\<rparr>"
          "\<lparr>PIND = 0x00, ADC = (\<lambda>c. 512)\<rparr>"]
    reading_bias_keeps_peak
      [of "\<lparr>peakVoltage = 450, Vread = 450, bias = 0, peak = 0, state = 2\<rparr>"
          "\<lparr>PIND = 0x04, ADC = (\<lambda>c. 512)\<rparr>"]
  by (simp add: start_pushed_def stop_pushed_def readBias_pushed_def no_button_def) blast

subsection \<open>Formatting\<close>

lemma volt_number_1: "volt_number 1.0 = Some ''1.000 V''"
proof -
  have b: "binary32 1 = 1"
    by (subst binary32_at [where k = "- 23"]) (simp_all add: rne_def)
  have "format_float 1 = ''1.000 V''"
    by (simp add: format_float_def digits3_def digit_char_def)
  then show ?thesis using volt_number_binary32 [OF b] by simp
qed

lemma volt_number_009: "volt_number 0.09 = Some ''0.090 V''"
proof -
  have a: "binary32 0.09 = 3019899 / 33554432"
    by (subst binary32_at [where k = "- 27"]) (simp_all add: rne_def)
  have b: "binary32 (3019899 / 33554432) = 3019899 / 33554432"
    by (subst binary32_at [where k = "- 27"]) (simp_all add: rne_def)
  have p: "binary32 (3019899 / 33554432 * 1000) = 90"
    by (subst binary32_at [where k = "- 17"]) (simp_all add: rne_def)
  have fr: "frac (3019899 / 33554432 :: real) = 3019899 / 33554432" by (simp add: frac_def)
  have ff: "format_float (3019899 / 33554432) = ''0.090 V''"
    unfolding format_float_def fr p by (simp add: digits3_def digit_char_def)
  have "volt_number (binary32 0.09) = volt_number 0.09"
    by (rule volt_number_rounds_argument) simp_all
  then show ?thesis unfolding a using volt_number_binary32 [OF b] ff by simp
qed

lemma volt_number_125: "volt_number 12.5 = Some ''12.500 V''"
proof -
  have b: "binary32 12.5 = 12.5"
    by (subst binary32_at [where k = "- 20"]) (simp_all add: rne_def)
  have p: "binary32 (1 / 2 * 1000) = 500"
    by (subst binary32_at [where k = "- 15"]) (simp_all add: rne_def)
  have fr: "frac (12.5 :: real) = 1 / 2" by (simp add: frac_def)
  have ff: "format_float 12.5 = ''12.500 V''"
    unfolding format_float_def fr p by (simp add: digits3_def digit_char_def)
  then show ?thesis using volt_number_binary32 [OF b] by simp
qed

lemma volt_number_00009: "volt_number 0.0009 = Some ''0.000 V''"
proof -
  have a: "binary32 0.0009 = 7730941 / 8589934592"
    by (subst binary32_at [where k = "- 34"]) (simp_all add: rne_def)
  have b: "binary32 (7730941 / 8589934592) = 7730941 / 8589934592"
    by (subst binary32_at [where k = "- 34"]) (simp_all add: rne_def)
  have p: "binary32 (7730941 / 8589934592 * 1000) = 7549747 / 8388608"
    by (subst binary32_at [where k = "- 24"]) (simp_all add: rne_def)
  have fr: "frac (7730941 / 8589934592 :: real) = 7730941 / 8589934592" by (simp add: frac_def)
  have ff: "format_float (7730941 / 8589934592) = ''0.000 V''"
    unfolding format_float_def fr p by (simp add: digits3_def digit_char_def)
  have "volt_number (binary32 0.0009) = volt_number 0.0009"
    by (rule volt_number_rounds_argument) simp_all
  then show ?thesis unfolding a using volt_number_binary32 [OF b] ff by simp
qed

lemma volt_number_examples:
  "volt_number 1.0 = Some ''1.000 V'' \<and> volt_number 0.09 = Some ''0.090 V'' \<and>
   volt_number 12.5 = Some ''12.500 V'' \<and> volt_number 0.0009 = Some ''0.000 V''"
  using volt_number_1 volt_number_009 volt_number_125 volt_number_00009 by simp

text \<open>
  C2, as the code has it. For every single-precision voltage \<open>v\<close> with
  \<open>0 \<le> v < 32768\<close>, \<^verbatim>\<open>print_volt\<close> sends the integer part, a decimal point, exactly
  three zero-padded decimal digits, then a space and \<open>V\<close>. The digits are the truncation
  of the single-precision product of the fractional part and 1000: the product is
  rounded to the nearest single-precision value before \<^verbatim>\<open>(int)\<close> truncates it, so the
  digits are the truncation of the exact product or one more. In particular 1.0
  gives \<open>1.000 V\<close>, 0.09 gives \<open>0.090 V\<close>, 12.5 gives \<open>12.500 V\<close> and 0.0009 gives
  \<open>0.000 V\<close>. The range is that of the \<^verbatim>\<open>int\<close> which receives the integer part.
\<close>

theorem print_volt_format:
  "(binary32 v = v \<and> 0 \<le> v \<and> v < 32768 \<longrightarrow>
      volt_number v = Some (format_float v) \<and>
      print_volt v = Some (map Lcd_data (format_float v)) \<and>
      0 \<le> \<lfloor>binary32 (frac v * 1000)\<rfloor> \<and> \<lfloor>binary32 (frac v * 1000)\<rfloor> < 1000 \<and>
      \<lfloor>frac v * 1000\<rfloor> \<le> \<lfloor>binary32 (frac v * 1000)\<rfloor> \<and>
      \<lfloor>binary32 (frac v * 1000)\<rfloor> \<le> \<lfloor>frac v * 1000\<rfloor> + 1 \<and>
      length (digits3 (nat \<lfloor>binary32 (frac v * 1000)\<rfloor>)) = 3) \<and>
   volt_number 1.0 = Some ''1.000 V'' \<and> volt_number 0.09 = Some ''0.090 V'' \<and>
   volt_number 12.5 = Some ''12.500 V'' \<and> volt_number 0.0009 = Some ''0.000 V''"
proof -
  have "volt_number v = Some (format_float v) \<and>
      print_volt v = Some (map Lcd_data (format_float v)) \<and>
      0 \<le> \<lfloor>binary32 (frac v * 1000)\<rfloor> \<and> \<lfloor>binary32 (frac v * 1000)\<rfloor> < 1000 \<and>
      \<lfloor>frac v * 1000\<rfloor> \<le> \<lfloor>binary32 (frac v * 1000)\<rfloor> \<and>
      \<lfloor>binary32 (frac v * 1000)\<rfloor> \<le> \<lfloor>frac v * 1000\<rfloor> + 1 \<and>
      length (digits3 (nat \<lfloor>binary32 (frac v * 1000)\<rfloor>)) = 3"
    if v: "binary32 v = v" "0 \<le> v" "v < 32768"
  proof -
    have "0 \<le> frac v" by simp
    moreover have "frac v \<le> 1 - 1 / 2 ^ 24" using frac_binary32 [OF v] by simp
    ultimately have "0 \<le> binary32 (frac v * 1000)" "binary32 (frac v * 1000) < 1000"
      using binary32_milli by blast+
    then have "0 \<le> \<lfloor>binary32 (frac v * 1000)\<rfloor>" "\<lfloor>binary32 (frac v * 1000)\<rfloor> < 1000"
      by (simp_all add: floor_less_iff)
    then show ?thesis
      using v floor_binary32_milli [of v]
      by (simp add: volt_number_binary32 print_volt_binary32 digits3_def)
  qed
  then show ?thesis using volt_number_examples by blast
qed

theorem print_volt_format_witness:
  "binary32 (11916461 / 4194304) = 11916461 / 4194304 \<and>
   (0::real) \<le> 11916461 / 4194304 \<and> (11916461 / 4194304 :: real) < 32768 \<and>
   volt_number (11916461 / 4194304) = Some ''2.841 V'' \<and>
   print_volt (11916461 / 4194304) = Some (map Lcd_data ''2.841 V'')"
proof -
  have b: "binary32 (11916461 / 4194304) = 11916461 / 4194304"
    by (subst binary32_at [where k = "- 22"]) (simp_all add: rne_def)
  have fr: "frac (11916461 / 4194304 :: real) = 3527853 / 4194304" by (simp add: frac_def)
  have "format_float (11916461 / 4194304) = ''2.841 V''"
    unfolding format_float_def fr binary32_milli_841 by (simp add: digits3_def digit_char_def)
  then show ?thesis
    using print_volt_format [of "11916461 / 4194304"] b by simp
qed

text \<open>
  The single-precision value nearest to 0.005 is \<open>5368709 / 2 ^ 30\<close>, a little below
  0.005. Its product with 1000 is rounded to 5 before it is truncated: \<^verbatim>\<open>print_volt\<close>
  shows \<open>0.005 V\<close>, where the truncation of the exact product gives \<open>0.004 V\<close>.
\<close>

theorem print_volt_rounds_product:
  "binary32 0.005 = 5368709 / 1073741824 \<and>
   binary32 (5368709 / 1073741824) = 5368709 / 1073741824 \<and>
   (0::real) \<le> 5368709 / 1073741824 \<and>
   binary32 (5368709 / 1073741824 * 1000) = 5 \<and>
   volt_number (5368709 / 1073741824) = Some ''0.005 V'' \<and>
   print_volt (5368709 / 1073741824) = Some (map Lcd_data ''0.005 V'') \<and>
   format_volt (5368709 / 1073741824) = ''0.004 V'' \<and>
   print_volt (5368709 / 1073741824) \<noteq> Some (map Lcd_data (format_volt (5368709 / 1073741824)))"
proof -
  have a: "binary32 0.005 = 5368709 / 1073741824"
    by (subst binary32_at [where k = "- 31"]) (simp_all add: rne_def)
  have b: "binary32 (5368709 / 1073741824) = 5368709 / 1073741824"
    by (subst binary32_at [where k = "- 31"]) (simp_all add: rne_def)
  have p: "binary32 (5368709 / 1073741824 * 1000) = 5"
    by (subst binary32_at [where k = "- 21"]) (simp_all add: rne_def)
  have fr: "frac (5368709 / 1073741824 :: real) = 5368709 / 1073741824" by (simp add: frac_def)
  have ff: "format_float (5368709 / 1073741824) = ''0.005 V''"
    unfolding format_float_def fr p by (simp add: digits3_def digit_char_def)
  have fv: "format_volt (5368709 / 1073741824) = ''0.004 V''"
    unfolding format_volt_def fr by (simp add: digits3_def digit_char_def)
  have v: "volt_number (5368709 / 1073741824) = Some ''0.005 V''"
    using volt_number_binary32 [OF b] ff by simp
  have pv: "print_volt (5368709 / 1073741824) = Some (map Lcd_data ''0.005 V'')"
    using print_volt_binary32 [OF b] ff by simp
  show ?thesis unfolding pv fv using a b p v by simp
qed

subsection \<open>Linearity\<close>

text \<open>
  C8. For samples in \<open>[0, 1023]\<close> and each of the two profiles, the reconstructed
  voltage does not decrease when the sample grows; the sample 0 gives 0 and the full-scale
  sample 1023 gives the reference voltage times the divider ratio. Stated for the
  source's two conversions and for \<open>reconstruct\<close> at the two profiles, in exact
  arithmetic.
\<close>

theorem reconstruct_monotone:
  "(0 \<le> s \<and> s \<le> t \<and> t \<le> 1023 \<longrightarrow>
      peak_of s \<le> peak_of t \<and> bias_of s \<le> bias_of t \<and>
      reconstruct (real_of_int s) peakProfile \<le> reconstruct (real_of_int t) peakProfile \<and>
      reconstruct (real_of_int s) biasProfile \<le> reconstruct (real_of_int t) biasProfile) \<and>
   peak_of 0 = 0 \<and> bias_of 0 = 0 \<and>
   reconstruct 0 peakProfile = 0 \<and> reconstruct 0 biasProfile = 0 \<and>
   peak_of 1023 = 1.1 * ((495.2 + 101.65) / 101.65) \<and>
   bias_of 1023 = 5.0 * ((498.1 + 101.8) / 101.8) \<and>
   reconstruct (fullScaleCode peakProfile) peakProfile =
     referenceVoltage peakProfile * (dividerNumerator peakProfile / dividerDenominator peakProfile) \<and>
   reconstruct (fullScaleCode biasProfile) biasProfile =
     referenceVoltage biasProfile * (dividerNumerator biasProfile / dividerDenominator biasProfile)"
proof -
  have "peak_of s \<le> peak_of t \<and> bias_of s \<le> bias_of t \<and>
      reconstruct (real_of_int s) peakProfile \<le> reconstruct (real_of_int t) peakProfile \<and>
      reconstruct (real_of_int s) biasProfile \<le> reconstruct (real_of_int t) biasProfile"
    if "s \<le> t"
    using peak_of_mono [OF that] bias_of_mono [OF that]
    by (simp add: peak_of_reconstruct bias_of_reconstruct)
  moreover have "peak_of 0 = 0" "bias_of 0 = 0"
    by (simp_all add: peak_of_def bias_of_def)
  moreover have "reconstruct 0 peakProfile = 0" "reconstruct 0 biasProfile = 0"
    by (simp_all add: reconstruct_def)
  moreover have "peak_of 1023 = 1.1 * ((495.2 + 101.65) / 101.65)"
    "bias_of 1023 = 5.0 * ((498.1 + 101.8) / 101.8)"
    by (simp_all add: peak_of_def bias_of_def)
  moreover have "reconstruct (fullScaleCode peakProfile) peakProfile =
     referenceVoltage peakProfile * (dividerNumerator peakProfile / dividerDenominator peakProfile)"
    by (simp add: reconstruct_def peakProfile_def)
  moreover have "reconstruct (fullScaleCode biasProfile) biasProfile =
     referenceVoltage biasProfile * (dividerNumerator biasProfile / dividerDenominator biasProfile)"
    by (simp add: reconstruct_def biasProfile_def)
  ultimately show ?thesis by blast
qed

theorem reconstruct_monotone_witness:
  "peak_of 100 \<le> peak_of 450 \<and> bias_of 100 \<le> bias_of 450 \<and>
   reconstruct 100 peakProfile \<le> reconstruct 450 peakProfile \<and>
   reconstruct 100 biasProfile \<le> reconstruct 450 biasProfile"
  using reconstruct_monotone [of 100 450] by simp

subsection \<open>Acquisition\<close>

text \<open>
  C3, as the code has it. From power-up: an iteration with START active, five
  iterations with no button active whose samples on the peak channel are 100, 300, 200,
  450 and 450, and an iteration with STOP active (START not). The iteration with START
  active already takes a sample after it has reset the peak, so the peak at the end is
  450 when that first sample is at most 450 (for instance when it is the 100 of the
  list); then \<^verbatim>\<open>peakVoltage\<close> is 450 and the voltage shown is the reconstruction of 450
  with the peak-signal profile, \<open>2.841 V\<close>. With a larger first sample the peak is that
  sample.
\<close>

theorem peak_of_five_samples:
  assumes "start_pushed e0" and "peak_sample e0 \<le> 450"
    and "no_button e1" and "peak_sample e1 = 100"
    and "no_button e2" and "peak_sample e2 = 300"
    and "no_button e3" and "peak_sample e3 = 200"
    and "no_button e4" and "peak_sample e4 = 450"
    and "no_button e5" and "peak_sample e5 = 450"
    and "\<not> start_pushed e6" and "stop_pushed e6"
  shows "\<exists>pre. main b [e0, e1, e2, e3, e4, e5, e6] =
     Some (\<lparr>peakVoltage = 450, Vread = 450, bias = b,
             peak = reconstruct 450 peakProfile, state = 2\<rparr>,
           pre @ lcd_cmd 0xC0 @ map Lcd_data (format_volt (reconstruct 450 peakProfile))) \<and>
     format_volt (reconstruct 450 peakProfile) = ''2.841 V''"
proof -
  have es: "list_all no_button [e1, e2, e3, e4, e5]" using assms by simp
  have p: "running_peak 0 [e0, e1, e2, e3, e4, e5] = 450"
    using assms peak_sample_range [of e0] by (simp add: running_peak_def)
  have f: "format_volt (reconstruct 450 peakProfile) = ''2.841 V''"
    using format_volt_peak_450 by (simp add: peak_of_reconstruct)
  have "format_float (binary32 (reconstruct 450 peakProfile)) = ''2.841 V''"
    using format_float_peak_450 by (simp add: peak_of_reconstruct)
  then obtain r pre where m: "main b (e0 # [e1, e2, e3, e4, e5] @ [e6]) =
     Some (\<lparr>peakVoltage = 450, Vread = r, bias = b,
             peak = reconstruct 450 peakProfile, state = 2\<rparr>,
           pre @ lcd_cmd 0xC0 @ map Lcd_data (format_volt (reconstruct 450 peakProfile)))"
    using main_start_acquiring_stop [OF assms(1) es assms(13,14), of b] unfolding p f by auto
  have "map_option (Vread \<circ> fst) (main b [e0, e1, e2, e3, e4, e5, e6]) = Some 450"
    using assms
    by (simp add: main_def loop_body_start loop_body_idle_1 loop_body_stop power_up_def
        peak_sample_range)
  then have "r = 450" using m by simp
  then show ?thesis using m f by auto
qed

theorem peak_of_five_samples_witness:
  "\<exists>pre. main 0 [\<lparr>PIND = 0x01, ADC = (\<lambda>c. 100)\<rparr>, \<lparr>PIND = 0x00, ADC = (\<lambda>c. 100)\<rparr>,
                  \<lparr>PIND = 0x00, ADC = (\<lambda>c. 300)\<rparr>, \<lparr>PIND = 0x00, ADC = (\<lambda>c. 200)\<rparr>,
                  \<lparr>PIND = 0x00, ADC = (\<lambda>c. 450)\<rparr>, \<lparr>PIND = 0x00, ADC = (\<lambda>c. 450)\<rparr>,
                  \<lparr>PIND = 0x02, ADC = (\<lambda>c. 0)\<rparr>] =
     Some (\<lparr>peakVoltage = 450, Vread = 450, bias = 0,
             peak = reconstruct 450 peakProfile, state = 2\<rparr>,
           pre @ lcd_cmd 0xC0 @ map Lcd_data ''2.841 V'')"
  using peak_of_five_samples
    [of "\<lparr>PIND = 0x01, ADC = (\<lambda>c. 100)\<rparr>" "\<lparr>PIND = 0x00, ADC = (\<lambda>c. 100)\<rparr>"
        "\<lparr>PIND = 0x00, ADC = (\<lambda>c. 300)\<rparr>" "\<lparr>PIND = 0x00, ADC = (\<lambda>c. 200)\<rparr>"
        "\<lparr>PIND = 0x00, ADC = (\<lambda>c. 450)\<rparr>" "\<lparr>PIND = 0x00, ADC = (\<lambda>c. 450)\<rparr>"
        "\<lparr>PIND = 0x02, ADC = (\<lambda>c. 0)\<rparr>" 0]
  by (auto simp add: start_pushed_def stop_pushed_def readBias_pushed_def no_button_def
      peak_sample_def read_adc_def)

text \<open>
  The same run with 1000 read in the iteration with START active: the peak at the end
  is 1000, and the voltage stored for display is its reconstruction.
\<close>

theorem start_iteration_sample_counts:
  "map_option ((\<lambda>v. (peakVoltage v, peak v, state v)) \<circ> fst)
     (main 0 [\<lparr>PIND = 0x01, ADC = (\<lambda>c. 1000)\<rparr>, \<lparr>PIND = 0x00, ADC = (\<lambda>c. 100)\<rparr>,
              \<lparr>PIND = 0x00, ADC = (\<lambda>c. 300)\<rparr>, \<lparr>PIND = 0x00, ADC = (\<lambda>c. 200)\<rparr>,
              \<lparr>PIND = 0x00, ADC = (\<lambda>c. 450)\<rparr>, \<lparr>PIND = 0x00, ADC = (\<lambda>c. 450)\<rparr>,
              \<lparr>PIND = 0x02, ADC = (\<lambda>c. 0)\<rparr>]) =
   Some (1000, reconstruct 1000 peakProfile, 2) \<and>
   map_option (peakVoltage \<circ> fst)
     (main 0 [\<lparr>PIND = 0x01, ADC = (\<lambda>c. 1000)\<rparr>, \<lparr>PIND = 0x00, ADC = (\<lambda>c. 100)\<rparr>,
              \<lparr>PIND = 0x00, ADC = (\<lambda>c. 300)\<rparr>, \<lparr>PIND = 0x00, ADC = (\<lambda>c. 200)\<rparr>,
              \<lparr>PIND = 0x00, ADC = (\<lambda>c. 450)\<rparr>, \<lparr>PIND = 0x00, ADC = (\<lambda>c. 450)\<rparr>,
              \<lparr>PIND = 0x02, ADC = (\<lambda>c. 0)\<rparr>]) \<noteq> Some 450"
proof -
  let ?e0 = "\<lparr>PIND = 0x01, ADC = (\<lambda>c. 1000)\<rparr>"
  let ?es = "[\<lparr>PIND = 0x00, ADC = (\<lambda>c. 100)\<rparr>,
              \<lparr>PIND = 0x00, ADC = (\<lambda>c. 300)\<rparr>, \<lparr>PIND = 0x00, ADC = (\<lambda>c. 200)\<rparr>,
              \<lparr>PIND = 0x00, ADC = (\<lambda>c. 450)\<rparr>, \<lparr>PIND = 0x00, ADC = (\<lambda>c. 450)\<rparr>]"
  let ?e6 = "\<lparr>PIND = 0x02, ADC = (\<lambda>c. 0)\<rparr>"
  have a: "start_pushed ?e0" "\<not> start_pushed ?e6" "stop_pushed ?e6"
    by (simp_all add: start_pushed_def stop_pushed_def)
  have b: "list_all no_button ?es"
    by (simp add: start_pushed_def stop_pushed_def readBias_pushed_def no_button_def)
  have p: "running_peak 0 (?e0 # ?es) = 1000"
    by (simp add: running_peak_def peak_sample_def read_adc_def)
  from main_start_acquiring_stop [OF a(1) b a(2,3), of 0] show ?thesis
    unfolding p by auto
qed

text \<open>
  C5, as the code has it. The buttons are read as levels: every iteration with START
  active sets \<^verbatim>\<open>peakVoltage\<close> to 0 before it takes its sample, in whatever state it
  finds the machine, state 1 included, so that afterwards the peak is that iteration's
  sample alone. An iteration with START not active never resets: the peak does not
  decrease.
\<close>

theorem start_resets_every_iteration:
  "(start_pushed e \<longrightarrow>
      map_option fst (buttons e v) = Some (v\<lparr>state := 1, peakVoltage := 0\<rparr>) \<and>
      (\<exists>out. loop_body e v =
         Some (v\<lparr>state := 1, peakVoltage := peak_sample e, Vread := peak_sample e\<rparr>, out))) \<and>
   (\<not> start_pushed e \<and> vars_ok v \<longrightarrow>
      (\<exists>v' out. loop_body e v = Some (v', out) \<and> peakVoltage v \<le> peakVoltage v'))"
  using loop_body_no_start_keeps_peak [of e v]
  by (simp add: buttons_start loop_body_start)

theorem start_resets_every_iteration_witness:
  "(\<exists>out. loop_body \<lparr>PIND = 0x01, ADC = (\<lambda>c. 100)\<rparr>
       \<lparr>peakVoltage = 450, Vread = 450, bias = 0, peak = 0, state = 1\<rparr> =
      Some (\<lparr>peakVoltage = 100, Vread = 100, bias = 0, peak = 0, state = 1\<rparr>, out)) \<and>
   (\<exists>v' out. loop_body \<lparr>PIND = 0x00, ADC = (\<lambda>c. 100)\<rparr>
       \<lparr>peakVoltage = 450, Vread = 450, bias = 0, peak = 0, state = 1\<rparr> = Some (v', out) \<and>
      450 \<le> peakVoltage v')"
  using start_resets_every_iteration
      [of "\<lparr>PIND = 0x01, ADC = (\<lambda>c. 100)\<rparr>"
          "\<lparr>peakVoltage = 450, Vread = 450, bias = 0, peak = 0, state = 1\<rparr>"]
    start_resets_every_iteration
      [of "\<lparr>PIND = 0x00, ADC = (\<lambda>c. 100)\<rparr>"
          "\<lparr>peakVoltage = 450, Vread = 450, bias = 0, peak = 0, state = 1\<rparr>"]
  by (simp add: start_pushed_def vars_ok_def peak_sample_def read_adc_def)

text \<open>
  START held for two iterations from power-up, with samples 450 and then 100: the machine
  is in state 1 after the first iteration, and the second leaves the peak at 100.
\<close>

theorem held_start_resets:
  "map_option ((\<lambda>v. (state v, peakVoltage v)) \<circ> fst)
     (main 0 [\<lparr>PIND = 0x01, ADC = (\<lambda>c. 450)\<rparr>]) = Some (1, 450) \<and>
   map_option ((\<lambda>v. (state v, peakVoltage v)) \<circ> fst)
     (main 0 [\<lparr>PIND = 0x01, ADC = (\<lambda>c. 450)\<rparr>, \<lparr>PIND = 0x01, ADC = (\<lambda>c. 100)\<rparr>]) = Some (1, 100) \<and>
   map_option (peakVoltage \<circ> fst)
     (main 0 [\<lparr>PIND = 0x01, ADC = (\<lambda>c. 450)\<rparr>, \<lparr>PIND = 0x01, ADC = (\<lambda>c. 100)\<rparr>]) \<noteq> Some 450"
proof -
  have a: "start_pushed \<lparr>PIND = 0x01, ADC = f\<rparr>" for f
    by (simp add: start_pushed_def)
  show ?thesis
    by (simp add: main_def loop_body_start a peak_sample_def read_adc_def)
qed

text \<open>
  C6. In state 2 (stopped), an iteration with START active sets \<^verbatim>\<open>peakVoltage\<close> to 0
  in the button chain, before the switch takes the first new sample; after that
  iteration and any number of iterations with no button active, the peak is the largest
  of the new samples, whatever the peak of the previous acquisition was.
\<close>

theorem start_from_stopped_resets:
  "state v = 2 \<and> start_pushed e \<and> list_all no_button es \<longrightarrow>
     map_option fst (buttons e v) = Some (v\<lparr>state := 1, peakVoltage := 0\<rparr>) \<and>
     (\<exists>out. loop_body e v =
        Some (v\<lparr>state := 1, peakVoltage := peak_sample e, Vread := peak_sample e\<rparr>, out)) \<and>
     (\<exists>r out'. main_loop (e # es) (v, out) =
        Some (v\<lparr>state := 1, Vread := r, peakVoltage := running_peak 0 (e # es)\<rparr>, out'))"
  using main_loop_start_acquiring [of e es v out]
  by (simp add: buttons_start loop_body_start)

theorem start_from_stopped_resets_witness:
  "\<exists>r out'. main_loop [\<lparr>PIND = 0x01, ADC = (\<lambda>c. 100)\<rparr>, \<lparr>PIND = 0x00, ADC = (\<lambda>c. 300)\<rparr>]
       (\<lparr>peakVoltage = 450, Vread = 450, bias = 0, peak = 2.841, state = 2\<rparr>, []) =
     Some (\<lparr>peakVoltage = 300, Vread = r, bias = 0, peak = 2.841, state = 1\<rparr>, out')"
  using start_from_stopped_resets
      [of "\<lparr>peakVoltage = 450, Vread = 450, bias = 0, peak = 2.841, state = 2\<rparr>"
          "\<lparr>PIND = 0x01, ADC = (\<lambda>c. 100)\<rparr>" "[\<lparr>PIND = 0x00, ADC = (\<lambda>c. 300)\<rparr>]" "[]"]
  by (simp add: start_pushed_def stop_pushed_def readBias_pushed_def no_button_def
      running_peak_def peak_sample_def read_adc_def)

subsection \<open>Modes\<close>

text \<open>
  C9. No branch of the button chain looks at \<^verbatim>\<open>state\<close>: from every state START leads to
  state 1, STOP (without START) to state 2 and READ BIAS (without START and STOP) to
  state 3. In particular STOP in state 0, before any acquisition, leads to state 2 and
  shows the reconstruction of 0 with the peak-signal profile, \<open>0.000 V\<close>; and READ BIAS
  in state 1 leads to state 3.
\<close>

theorem buttons_not_guarded:
  "(start_pushed e \<longrightarrow> (\<exists>v' out. loop_body e v = Some (v', out) \<and> state v' = 1)) \<and>
   (vars_ok v \<and> \<not> start_pushed e \<and> stop_pushed e \<longrightarrow>
      (\<exists>v' out. loop_body e v = Some (v', out) \<and> state v' = 2)) \<and>
   (\<not> start_pushed e \<and> \<not> stop_pushed e \<and> readBias_pushed e \<longrightarrow>
      (\<exists>v' out. loop_body e v = Some (v', out) \<and> state v' = 3)) \<and>
   (list_all no_button es \<and> \<not> start_pushed e \<and> stop_pushed e \<longrightarrow>
      (\<exists>pre. main b (es @ [e]) =
         Some (\<lparr>peakVoltage = 0, Vread = 0, bias = b, peak = reconstruct 0 peakProfile, state = 2\<rparr>,
               pre @ lcd_cmd 0xC0 @ map Lcd_data ''0.000 V'')) \<and>
      format_volt (reconstruct 0 peakProfile) = ''0.000 V'')"
proof -
  have "\<exists>v' out. loop_body e v = Some (v', out) \<and> state v' = 1" if "start_pushed e"
    using that by (simp add: loop_body_start)
  moreover have "\<exists>v' out. loop_body e v = Some (v', out) \<and> state v' = 2"
    if "vars_ok v" "\<not> start_pushed e" "stop_pushed e"
    using that by (simp add: loop_body_stop vars_ok_def)
  moreover have "\<exists>v' out. loop_body e v = Some (v', out) \<and> state v' = 3"
    if "\<not> start_pushed e" "\<not> stop_pushed e" "readBias_pushed e"
    using that by (simp add: loop_body_readBias)
  moreover have "\<exists>pre. main b (es @ [e]) =
         Some (\<lparr>peakVoltage = 0, Vread = 0, bias = b, peak = reconstruct 0 peakProfile, state = 2\<rparr>,
               pre @ lcd_cmd 0xC0 @ map Lcd_data ''0.000 V'')"
    if "list_all no_button es" "\<not> start_pushed e" "stop_pushed e"
  proof -
    have "main_loop es (power_up b, startup) = Some (power_up b, startup)"
      using that(1) by (intro main_loop_idle) (simp_all add: power_up_def)
    then have "main b (es @ [e]) =
         Some (\<lparr>peakVoltage = 0, Vread = 0, bias = b, peak = reconstruct 0 peakProfile, state = 2\<rparr>,
               (startup @ lcd_init @ lcd_cmd 0x82 @ lcd_str ''Peak Voltage'') @
               lcd_cmd 0xC0 @ map Lcd_data ''0.000 V'')"
      using that(2,3) format_float_peak_0
      by (simp add: main_def main_loop_append power_up_def loop_body_stop peak_of_reconstruct)
    then show ?thesis by blast
  qed
  moreover have "format_volt (reconstruct 0 peakProfile) = ''0.000 V''"
    using format_volt_peak_0 by (simp add: peak_of_reconstruct)
  ultimately show ?thesis by blast
qed

theorem buttons_not_guarded_witness:
  "(\<exists>pre. main 0 ([\<lparr>PIND = 0x00, ADC = (\<lambda>c. 7)\<rparr>] @ [\<lparr>PIND = 0x02, ADC = (\<lambda>c. 7)\<rparr>]) =
      Some (\<lparr>peakVoltage = 0, Vread = 0, bias = 0, peak = reconstruct 0 peakProfile, state = 2\<rparr>,
            pre @ lcd_cmd 0xC0 @ map Lcd_data ''0.000 V'')) \<and>
   (\<exists>v' out. loop_body \<lparr>PIND = 0x04, ADC = (\<lambda>c. 7)\<rparr>
       \<lparr>peakVoltage = 450, Vread = 450, bias = 0, peak = 0, state = 1\<rparr> = Some (v', out) \<and>
      state v' = 3) \<and>
   (\<exists>v' out. loop_body \<lparr>PIND = 0x01, ADC = (\<lambda>c. 7)\<rparr>
       \<lparr>peakVoltage = 450, Vread = 450, bias = 0, peak = 0, state = 3\<rparr> = Some (v', out) \<and>
      state v' = 1) \<and>
   (\<exists>v' out. loop_body \<lparr>PIND = 0x02, ADC = (\<lambda>c. 7)\<rparr>
       \<lparr>peakVoltage = 450, Vread = 450, bias = 0, peak = 0, state = 3\<rparr> = Some (v', out) \<and>
      state v' = 2)"
  using buttons_not_guarded
      [of "\<lparr>PIND = 0x02, ADC = (\<lambda>c. 7)\<rparr>" "power_up 0" "[\<lparr>PIND = 0x00, ADC = (\<lambda>c. 7)\<rparr>]" 0]
    buttons_not_guarded
      [of "\<lparr>PIND = 0x04, ADC = (\<lambda>c. 7)\<rparr>"
          "\<lparr>peakVoltage = 450, Vread = 450, bias = 0, peak = 0, state = 1\<rparr>" "[]" 0]
    buttons_not_guarded
      [of "\<lparr>PIND = 0x01, ADC = (\<lambda>c. 7)\<rparr>"
          "\<lparr>peakVoltage = 450, Vread = 450, bias = 0, peak = 0, state = 3\<rparr>" "[]" 0]
    buttons_not_guarded
      [of "\<lparr>PIND = 0x02, ADC = (\<lambda>c. 7)\<rparr>"
          "\<lparr>peakVoltage = 450, Vread = 450, bias = 0, peak = 0, state = 3\<rparr>" "[]" 0]
  by (simp add: start_pushed_def stop_pushed_def readBias_pushed_def no_button_def vars_ok_def)

text \<open>
  C10. State 0 is never entered again: an iteration with a button active ends in state
  1, 2 or 3, an iteration that starts in a state other than 0 ends in state 1, 2 or 3,
  and so does every run from power-up that has an iteration with a button active,
  however it goes on.
\<close>

theorem idle_never_reentered:
  "(vars_ok v \<and> \<not> no_button e \<longrightarrow>
      (\<exists>v' out. loop_body e v = Some (v', out) \<and> (state v' = 1 \<or> state v' = 2 \<or> state v' = 3))) \<and>
   (vars_ok v \<and> state v \<noteq> 0 \<longrightarrow>
      (\<exists>v' out. loop_body e v = Some (v', out) \<and> (state v' = 1 \<or> state v' = 2 \<or> state v' = 3))) \<and>
   (\<not> no_button e \<longrightarrow>
      (\<exists>v' out. main b (es1 @ e # es2) = Some (v', out) \<and>
         (state v' = 1 \<or> state v' = 2 \<or> state v' = 3)))"
proof -
  have "\<exists>v' out. loop_body e v = Some (v', out) \<and> (state v' = 1 \<or> state v' = 2 \<or> state v' = 3)"
    if "vars_ok v" "state v \<noteq> 0 \<or> \<not> no_button e"
    using loop_body_leaves_idle [OF that] vars_ok_states by blast
  moreover have "\<exists>v' out. main b (es1 @ e # es2) = Some (v', out) \<and>
         (state v' = 1 \<or> state v' = 2 \<or> state v' = 3)"
    if "\<not> no_button e"
    using main_after_button [OF that, of b es1 es2] vars_ok_states by blast
  ultimately show ?thesis by blast
qed

theorem idle_never_reentered_witness:
  "(\<exists>v' out. main 0 [\<lparr>PIND = 0x00, ADC = (\<lambda>c. 7)\<rparr>, \<lparr>PIND = 0x04, ADC = (\<lambda>c. 7)\<rparr>,
                      \<lparr>PIND = 0x00, ADC = (\<lambda>c. 7)\<rparr>] = Some (v', out) \<and>
      (state v' = 1 \<or> state v' = 2 \<or> state v' = 3)) \<and>
   (\<exists>v' out. loop_body \<lparr>PIND = 0x04, ADC = (\<lambda>c. 7)\<rparr> (power_up 0) = Some (v', out) \<and>
      (state v' = 1 \<or> state v' = 2 \<or> state v' = 3)) \<and>
   (\<exists>v' out. loop_body \<lparr>PIND = 0x00, ADC = (\<lambda>c. 7)\<rparr>
       \<lparr>peakVoltage = 450, Vread = 450, bias = 0, peak = 0, state = 2\<rparr> = Some (v', out) \<and>
      (state v' = 1 \<or> state v' = 2 \<or> state v' = 3))"
  using idle_never_reentered
      [of "power_up 0" "\<lparr>PIND = 0x04, ADC = (\<lambda>c. 7)\<rparr>" 0
          "[\<lparr>PIND = 0x00, ADC = (\<lambda>c. 7)\<rparr>]" "[\<lparr>PIND = 0x00, ADC = (\<lambda>c. 7)\<rparr>]"]
    idle_never_reentered
      [of "\<lparr>peakVoltage = 450, Vread = 450, bias = 0, peak = 0, state = 2\<rparr>"
          "\<lparr>PIND = 0x00, ADC = (\<lambda>c. 7)\<rparr>" 0 "[]" "[]"]
  by (simp add: start_pushed_def stop_pushed_def readBias_pushed_def no_button_def
      vars_ok_def power_up_def)

end
